theory Spec2Isabelle
  imports Main
begin

section \<open>Parsed JSON documents and the JavaScript operations applied to them\<close>

text \<open>
  The verifier (\<^verbatim>\<open>src/scripts/verify.js\<close>) reads three kinds of files, parses them
  with \<^verbatim>\<open>JSON.parse\<close> and inspects the parsed values. A parsed value is modelled by
  \<open>jvalue\<close>. A number is carried as the text JavaScript prints for it (\<^verbatim>\<open>String(n)\<close>):
  the script only asks whether a number is zero and how it prints. An object is the list
  of its own properties in enumeration order, as \<^verbatim>\<open>Object.keys\<close> lists them.
\<close>

datatype jvalue =
    JNull
  | JBool bool
  | JNum string
  | JStr string
  | JArr "jvalue list"
  | JObj "(string \<times> jvalue) list"

text \<open>The only exception that escapes the script's own \<^verbatim>\<open>try\<close> blocks.\<close>

datatype exn = TypeError

text \<open>
  \<^verbatim>\<open>v.k\<close> for a value \<open>v\<close> other than \<^verbatim>\<open>null\<close> and a name \<open>k\<close> that no prototype
  defines (every name the script reads is of that kind): \<open>None\<close> is \<^verbatim>\<open>undefined\<close>.
  Reading a property of \<^verbatim>\<open>null\<close> throws; the callers test for it first.
\<close>

fun getProp :: "jvalue \<Rightarrow> string \<Rightarrow> jvalue option" where
  "getProp (JObj kvs) k = map_of kvs k"
| "getProp _ k = None"

text \<open>JavaScript truthiness, as \<^verbatim>\<open>!x\<close>, \<^verbatim>\<open>x && y\<close> and \<^verbatim>\<open>x ? a : b\<close> test it.\<close>

fun truthy :: "jvalue option \<Rightarrow> bool" where
  "truthy None = False"
| "truthy (Some JNull) = False"
| "truthy (Some (JBool b)) = b"
| "truthy (Some (JNum n)) = (n \<noteq> ''0'')"
| "truthy (Some (JStr s)) = (s \<noteq> [])"
| "truthy (Some (JArr xs)) = True"
| "truthy (Some (JObj kvs)) = True"

text \<open>The \<^verbatim>\<open>typeof\<close> operator.\<close>

fun typeof :: "jvalue option \<Rightarrow> string" where
  "typeof None = ''undefined''"
| "typeof (Some JNull) = ''object''"
| "typeof (Some (JBool b)) = ''boolean''"
| "typeof (Some (JNum n)) = ''number''"
| "typeof (Some (JStr s)) = ''string''"
| "typeof (Some (JArr xs)) = ''object''"
| "typeof (Some (JObj kvs)) = ''object''"

text \<open>
  String conversion, as a template literal \<^verbatim>\<open>`${v}`\<close> performs it. An array prints its
  elements joined by commas, \<^verbatim>\<open>null\<close> elements as the empty text. An object prints
  as \<^verbatim>\<open>[object Object]\<close>, unless it has an own property \<^verbatim>\<open>toString\<close>: a parsed
  property is never a function, so the conversion finds no method that yields a primitive
  and throws a TypeError (\<open>None\<close>).
\<close>

fun toStr :: "jvalue \<Rightarrow> string option"
  and joinElems :: "jvalue list \<Rightarrow> string option" where
  "toStr JNull = Some ''null''"
| "toStr (JBool b) = Some (if b then ''true'' else ''false'')"
| "toStr (JNum n) = Some n"
| "toStr (JStr s) = Some s"
| "toStr (JArr xs) = joinElems xs"
| "toStr (JObj kvs) =
     (if ''toString'' \<in> set (map fst kvs) then None else Some ''[object Object]'')"
| "joinElems [] = Some []"
| "joinElems (x # xs) =
     (case (if x = JNull then Some [] else toStr x) of
        None \<Rightarrow> None
      | Some s \<Rightarrow>
          (if xs = [] then Some s
           else (case joinElems xs of None \<Rightarrow> None | Some r \<Rightarrow> Some (s @ '','' @ r))))"

text \<open>String conversion of a value that may be \<^verbatim>\<open>undefined\<close>.\<close>

fun toStrU :: "jvalue option \<Rightarrow> string option" where
  "toStrU None = Some ''undefined''"
| "toStrU (Some v) = toStr v"

text \<open>
  Conversion to a primitive, as \<^verbatim>\<open>new Date(v)\<close> performs it first: arrays and
  objects become their string conversion (or throw), a primitive is itself.
\<close>

fun toPrimitive :: "jvalue \<Rightarrow> jvalue option" where
  "toPrimitive (JArr xs) = map_option JStr (toStr (JArr xs))"
| "toPrimitive (JObj kvs) = map_option JStr (toStr (JObj kvs))"
| "toPrimitive v = Some v"

text \<open>\<^verbatim>\<open>s.startsWith(p)\<close> and \<^verbatim>\<open>xs.join(sep)\<close> on strings.\<close>

definition startsWith :: "string \<Rightarrow> string \<Rightarrow> bool" where
  "startsWith s p = (take (length p) s = p)"

fun join :: "string \<Rightarrow> string list \<Rightarrow> string" where
  "join sep [] = []"
| "join sep [x] = x"
| "join sep (x # y # ys) = x @ sep @ join sep (y # ys)"

text \<open>The decimal text of a count (\<^verbatim>\<open>`${xs.length}`\<close>).\<close>

function show_nat :: "nat \<Rightarrow> string" where
  "show_nat n =
     (if n < 10 then [''0123456789'' ! n]
      else show_nat (n div 10) @ [''0123456789'' ! (n mod 10)])"
  by pat_completeness auto
termination
  by (relation "measure id") auto

text \<open>
  \<^verbatim>\<open>Object.keys(v)\<close> for a value whose \<^verbatim>\<open>typeof\<close> is \<^verbatim>\<open>object\<close> and which is not
  \<^verbatim>\<open>null\<close>: the own property names of an object, the indices of an array. (The script
  applies it to nothing else.)
\<close>

fun objectKeys :: "jvalue \<Rightarrow> string list" where
  "objectKeys (JObj kvs) = map fst kvs"
| "objectKeys (JArr xs) = map show_nat [0..<length xs]"
| "objectKeys _ = []"

fun isArray :: "jvalue \<Rightarrow> bool" where
  "isArray (JArr xs) = True"
| "isArray _ = False"

text \<open>\<^verbatim>\<open>v.length\<close> of an array (read of nothing else).\<close>

fun arrayLength :: "jvalue \<Rightarrow> nat" where
  "arrayLength (JArr xs) = length xs"
| "arrayLength _ = 0"

section \<open>The files, the configuration and the state of a run\<close>

text \<open>
  What the file system gives for one path: the file is absent (\<^verbatim>\<open>fs.existsSync\<close> is
  false), reading or parsing it throws with a message (caught by the script), or it
  parses to a value.
\<close>

datatype file_result = Missing | ParseError string | Parsed jvalue

text \<open>
  The inputs of a run: the path \<^verbatim>\<open>DATA_DIR\<close> (it depends on where the script is
  installed), \<^verbatim>\<open>data/index.json\<close>, \<^verbatim>\<open>data/<code>.json\<close> for each code,
  \<^verbatim>\<open>web/public/search-index.json\<close>, and the date parser of the runtime:
  \<open>dateIsValid p\<close> tells whether \<^verbatim>\<open>new Date(p).getTime()\<close> is a number (not NaN) for
  a primitive \<open>p\<close>.
\<close>

record world =
  dataDir :: string
  indexFile :: file_result
  stateFile :: "string \<Rightarrow> file_result"
  searchIndexFile :: file_result
  dateIsValid :: "jvalue \<Rightarrow> bool"

text \<open>\<^verbatim>\<open>CONFIG\<close>: the two command-line flags.\<close>

record config =
  verbose :: bool
  json :: bool

datatype severity = Warning | Error

text \<open>An entry of \<^verbatim>\<open>results.details\<close>: \<^verbatim>\<open>{ type, check, details }\<close>.\<close>

record detail =
  d_type :: severity
  d_check :: string
  d_details :: jvalue

text \<open>The machine-readable report that \<^verbatim>\<open>generateReport\<close> prints.\<close>

record report =
  r_timestamp :: string
  r_status :: string
  r_states :: nat
  r_statesWithRequirements :: nat
  r_statesWithIssues :: nat
  r_passed :: nat
  r_warnings :: nat
  r_errors :: nat
  r_details :: "detail list"

text \<open>
  What is written to standard output: a line of text, or the JSON text of a report
  (\<^verbatim>\<open>JSON.stringify(report, null, 2)\<close>, a function of the report).
\<close>

datatype printed = Text string | Json report

text \<open>
  The mutable state of the process: the module-level \<^verbatim>\<open>results\<close> object (three counters
  and the detail log), what has been printed, and \<^verbatim>\<open>process.exitCode\<close> (\<open>None\<close> while
  it is unset; the process then exits with 0).
\<close>

record state =
  passed :: nat
  warnings :: nat
  errors :: nat
  details :: "detail list"
  stdout :: "printed list"
  stderr :: "string list"
  exitCode :: "nat option"

definition initial :: state where
  "initial = \<lparr>passed = 0, warnings = 0, errors = 0, details = [], stdout = [], stderr = [],
     exitCode = None\<rparr>"

definition exitStatus :: "state \<Rightarrow> nat" where
  "exitStatus st = (case exitCode st of None \<Rightarrow> 0 | Some c \<Rightarrow> c)"

text \<open>The expected US states and DC.\<close>

definition EXPECTED_STATES :: "string list" where
  "EXPECTED_STATES =
    [''AL'', ''AK'', ''AZ'', ''AR'', ''CA'', ''CO'', ''CT'', ''DE'', ''DC'', ''FL'',
     ''GA'', ''HI'', ''ID'', ''IL'', ''IN'', ''IA'', ''KS'', ''KY'', ''LA'', ''ME'',
     ''MD'', ''MA'', ''MI'', ''MN'', ''MS'', ''MO'', ''MT'', ''NE'', ''NV'', ''NH'',
     ''NJ'', ''NM'', ''NY'', ''NC'', ''ND'', ''OH'', ''OK'', ''OR'', ''PA'',
     ''RI'', ''SC'', ''SD'', ''TN'', ''TX'', ''UT'', ''VT'', ''VA'', ''WA'',
     ''WV'', ''WI'', ''WY'']"

text \<open>The three marks of the human-readable output, as the bytes of their UTF-8 text.\<close>

definition CHECK_MARK :: string where
  "CHECK_MARK = [CHR 0xE2, CHR 0x9C, CHR 0x93]"

definition WARNING_SIGN :: string where
  "WARNING_SIGN = [CHR 0xE2, CHR 0x9A, CHR 0xA0]"

definition BALLOT_X :: string where
  "BALLOT_X = [CHR 0xE2, CHR 0x9C, CHR 0x97]"

section \<open>Logging and counting\<close>

definition log :: "config \<Rightarrow> string \<Rightarrow> state \<Rightarrow> state" where
  "log cfg message st =
     (if \<not> json cfg then st\<lparr>stdout := stdout st @ [Text message]\<rparr> else st)"

definition pass :: "config \<Rightarrow> string \<Rightarrow> state \<Rightarrow> state" where
  "pass cfg check st =
     (let st1 = st\<lparr>passed := passed st + 1\<rparr>
      in if verbose cfg then log cfg (''  '' @ CHECK_MARK @ '' '' @ check) st1 else st1)"

text \<open>
  The text \<^verbatim>\<open>${details ? ` - ${details}` : ''}\<close> of a finding's line. Every caller
  passes a string, or a value whose string conversion has been computed before, so
  the conversion does not throw here.
\<close>

definition detailSuffix :: "jvalue \<Rightarrow> string" where
  "detailSuffix d =
     (if truthy (Some d) then '' - '' @ (case toStr d of Some s \<Rightarrow> s | None \<Rightarrow> []) else [])"

definition warn :: "config \<Rightarrow> string \<Rightarrow> jvalue \<Rightarrow> state \<Rightarrow> state" where
  "warn cfg check d st =
     log cfg (''  '' @ WARNING_SIGN @ '' WARNING: '' @ check @ detailSuffix d)
       (st\<lparr>warnings := warnings st + 1,
           details := details st @ [\<lparr>d_type = Warning, d_check = check, d_details = d\<rparr>]\<rparr>)"

definition fail :: "config \<Rightarrow> string \<Rightarrow> jvalue \<Rightarrow> state \<Rightarrow> state" where
  "fail cfg check d st =
     log cfg (''  '' @ BALLOT_X @ '' ERROR: '' @ check @ detailSuffix d)
       (st\<lparr>errors := errors st + 1,
           details := details st @ [\<lparr>d_type = Error, d_check = check, d_details = d\<rparr>]\<rparr>)"

section \<open>The index validator\<close>

definition NL :: char where
  "NL = CHR 0x0A"

text \<open>
  Lines 82 to 91 of \<^verbatim>\<open>validateIndexFile\<close>: the \<^verbatim>\<open>lastUpdated\<close> field. \<^verbatim>\<open>new Date(v)\<close>
  converts an array or an object to a primitive first, which can throw; the state is
  then as it was.
\<close>

definition checkLastUpdated :: "world \<Rightarrow> config \<Rightarrow> jvalue \<Rightarrow> state \<Rightarrow> exn + state" where
  "checkLastUpdated w cfg index st =
     (case getProp index ''lastUpdated'' of
        None \<Rightarrow> Inr (fail cfg ''index.json has lastUpdated field'' (JStr []) st)
      | Some v \<Rightarrow>
          if \<not> truthy (Some v)
          then Inr (fail cfg ''index.json has lastUpdated field'' (JStr []) st)
          else (case toPrimitive v of
                  None \<Rightarrow> Inl TypeError
                | Some p \<Rightarrow>
                    if \<not> dateIsValid w p
                    then Inr (fail cfg ''lastUpdated is valid date'' v st)
                    else Inr (pass cfg ''lastUpdated is valid date'' st)))"

text \<open>
  \<^verbatim>\<open>Object.keys(index.states)\<close>, which is also the order of
  \<^verbatim>\<open>Object.entries(index.states)\<close> in \<^verbatim>\<open>main\<close>; lines 99 to 106 compare these keys
  with the expected codes.
\<close>

definition indexStates :: "jvalue \<Rightarrow> string list" where
  "indexStates index =
     (case getProp index ''states'' of None \<Rightarrow> [] | Some s \<Rightarrow> objectKeys s)"

definition missingStates :: "jvalue \<Rightarrow> string list" where
  "missingStates index = filter (\<lambda>s. s \<notin> set (indexStates index)) EXPECTED_STATES"

definition checkCoverage :: "config \<Rightarrow> jvalue \<Rightarrow> state \<Rightarrow> state" where
  "checkCoverage cfg index st =
     (if length (missingStates index) > 0
      then warn cfg ''All expected states present''
             (JStr (''Missing: '' @ join '', '' (missingStates index))) st
      else pass cfg (''All '' @ show_nat (length EXPECTED_STATES) @ '' expected states present'') st)"

text \<open>
  \<^verbatim>\<open>validateIndexFile\<close>: the result is \<open>Inr None\<close> for \<^verbatim>\<open>return null\<close>,
  \<open>Inr (Some index)\<close> for \<^verbatim>\<open>return index\<close> and \<open>Inl TypeError\<close> when a property of
  a \<^verbatim>\<open>null\<close> document is read or the date conversion throws.
\<close>

definition validateIndexFile ::
  "world \<Rightarrow> config \<Rightarrow> state \<Rightarrow> (exn + jvalue option) \<times> state" where
  "validateIndexFile w cfg st0 =
     (let st1 = log cfg (NL # ''--- Validating index.json ---'') st0 in
      case indexFile w of
        Missing \<Rightarrow> (Inr None, fail cfg ''index.json exists'' (JStr ''File not found'') st1)
      | ParseError m \<Rightarrow>
          (Inr None,
           fail cfg ''index.json is valid JSON'' (JStr m) (pass cfg ''index.json exists'' st1))
      | Parsed index \<Rightarrow>
          (let st2 = pass cfg ''index.json is valid JSON'' (pass cfg ''index.json exists'' st1) in
           if index = JNull then (Inl TypeError, st2)
           else (case checkLastUpdated w cfg index st2 of
                   Inl e \<Rightarrow> (Inl e, st2)
                 | Inr st3 \<Rightarrow>
                     if \<not> truthy (getProp index ''states'')
                        \<or> typeof (getProp index ''states'') \<noteq> ''object''
                     then (Inr None, fail cfg ''index.json has states object'' (JStr []) st3)
                     else (Inr (Some index),
                           checkCoverage cfg index
                             (pass cfg ''index.json has states object'' st3)))))"

section \<open>The region validator\<close>

text \<open>
  The content checks of \<^verbatim>\<open>validateStateFile\<close> (lines 129 to 164), one definition for
  each \<^verbatim>\<open>if\<close> statement, giving the issues that statement pushes. A template literal
  can throw while it converts a field to a string.
\<close>

definition checkState :: "string \<Rightarrow> jvalue \<Rightarrow> exn + string list" where
  "checkState stateCode data =
     (if getProp data ''state'' \<noteq> Some (JStr stateCode)
      then (case toStrU (getProp data ''state'') of
              None \<Rightarrow> Inl TypeError
            | Some s \<Rightarrow> Inr [''State code mismatch: '' @ s @ '' vs '' @ stateCode])
      else Inr [])"

definition checkStateName :: "jvalue \<Rightarrow> string list" where
  "checkStateName data =
     (if \<not> truthy (getProp data ''stateName'') then [''Missing stateName''] else [])"

definition checkAgencyType :: "jvalue \<Rightarrow> exn + string list" where
  "checkAgencyType data =
     (if getProp data ''agencyType'' \<notin> {Some (JStr ''SAA''), Some (JStr ''OA'')}
      then (case toStrU (getProp data ''agencyType'') of
              None \<Rightarrow> Inl TypeError
            | Some s \<Rightarrow> Inr [''Invalid agencyType: '' @ s])
      else Inr [])"

definition checkHasRequirement :: "jvalue \<Rightarrow> string list" where
  "checkHasRequirement data =
     (if typeof (getProp data ''hasPublicWorksRequirement'') \<noteq> ''boolean''
      then [''Missing or invalid hasPublicWorksRequirement''] else [])"

text \<open>
  Lines 152 to 155. \<^verbatim>\<open>req.statuteUrl.startsWith\<close> is a method of strings only: on any
  other truthy value it is \<^verbatim>\<open>undefined\<close> (or a parsed property) and the call throws.
\<close>

definition checkStatuteUrl :: "jvalue \<Rightarrow> exn + string list" where
  "checkStatuteUrl req =
     (let missing = (if \<not> truthy (getProp req ''statuteUrl'')
                     then [''Missing requirement.statuteUrl''] else [])
      in if truthy (getProp req ''statuteUrl'')
         then (case getProp req ''statuteUrl'' of
                 Some (JStr url) \<Rightarrow>
                   if \<not> startsWith url ''http''
                   then Inr (missing @ [''Invalid statute URL: '' @ url])
                   else Inr missing
               | _ \<Rightarrow> Inl TypeError)
         else Inr missing)"

text \<open>Lines 147 to 156: the checks inside a requirement object.\<close>

definition checkRequirement :: "jvalue \<Rightarrow> exn + string list" where
  "checkRequirement data =
     (if truthy (getProp data ''hasPublicWorksRequirement'') \<and> truthy (getProp data ''requirement'')
      then (case getProp data ''requirement'' of
              None \<Rightarrow> Inr []
            | Some req \<Rightarrow>
                (case checkStatuteUrl req of
                   Inl e \<Rightarrow> Inl e
                 | Inr urlIssues \<Rightarrow>
                     Inr ((if \<not> truthy (getProp req ''requirementType'')
                           then [''Missing requirement.requirementType''] else [])
                        @ (if \<not> truthy (getProp req ''ratioDescription'')
                           then [''Missing requirement.ratioDescription''] else [])
                        @ (if \<not> truthy (getProp req ''statute'')
                           then [''Missing requirement.statute''] else [])
                        @ urlIssues)))
      else Inr [])"

definition checkNoRequirement :: "jvalue \<Rightarrow> string list" where
  "checkNoRequirement data =
     (if truthy (getProp data ''hasPublicWorksRequirement'')
         \<and> \<not> truthy (getProp data ''requirement'')
      then [''hasPublicWorksRequirement is true but no requirement object''] else [])"

definition checkLastVerified :: "jvalue \<Rightarrow> string list" where
  "checkLastVerified data =
     (if \<not> truthy (getProp data ''lastVerified'') then [''Missing lastVerified date''] else [])"

text \<open>
  The list \<^verbatim>\<open>issues\<close> when line 166 is reached, or the TypeError thrown on the way:
  by \<^verbatim>\<open>data.state\<close> when the document is \<^verbatim>\<open>null\<close>, or by one of the checks above.
  Nothing is recorded before line 166, so a throw leaves the state as it was.
\<close>

definition contentIssues :: "string \<Rightarrow> jvalue \<Rightarrow> exn + string list" where
  "contentIssues stateCode data =
     (if data = JNull then Inl TypeError
      else (case checkState stateCode data of
              Inl e \<Rightarrow> Inl e
            | Inr i1 \<Rightarrow>
                (case checkAgencyType data of
                   Inl e \<Rightarrow> Inl e
                 | Inr i3 \<Rightarrow>
                     (case checkRequirement data of
                        Inl e \<Rightarrow> Inl e
                      | Inr i5 \<Rightarrow>
                          Inr (i1 @ checkStateName data @ i3 @ checkHasRequirement data @ i5
                               @ checkNoRequirement data @ checkLastVerified data)))))"

text \<open>Lines 166 to 176: at most five issues as warnings, then one summarising warning.\<close>

definition reportFindings :: "config \<Rightarrow> string \<Rightarrow> string list \<Rightarrow> state \<Rightarrow> state" where
  "reportFindings cfg stateCode issues st =
     (if length issues > 0
      then (let st1 = fold (\<lambda>issue. warn cfg stateCode (JStr issue)) (take 5 issues) st
            in if length issues > 5
               then warn cfg stateCode
                      (JStr (''...and '' @ show_nat (length issues - 5) @ '' more issues'')) st1
               else st1)
      else pass cfg (stateCode @ ''.json structure is valid'') st)"

text \<open>The summary \<^verbatim>\<open>{ issues, hasReq }\<close> that \<^verbatim>\<open>validateStateFile\<close> returns.\<close>

record stats =
  issues :: nat
  hasReq :: "jvalue option"

text \<open>
  \<^verbatim>\<open>validateStateFile(stateCode, indexEntry)\<close>; the second argument is never read and
  is left out. \<open>Inr None\<close> is \<^verbatim>\<open>return null\<close>.
\<close>

definition validateStateFile ::
  "world \<Rightarrow> config \<Rightarrow> string \<Rightarrow> state \<Rightarrow> (exn + stats option) \<times> state" where
  "validateStateFile w cfg stateCode st =
     (case stateFile w stateCode of
        Missing \<Rightarrow> (Inr None, fail cfg (stateCode @ ''.json exists'') (JStr []) st)
      | ParseError m \<Rightarrow> (Inr None, fail cfg (stateCode @ ''.json is valid JSON'') (JStr m) st)
      | Parsed data \<Rightarrow>
          (case contentIssues stateCode data of
             Inl e \<Rightarrow> (Inl e, st)
           | Inr is \<Rightarrow>
               (Inr (Some \<lparr>issues = length is,
                           hasReq = getProp data ''hasPublicWorksRequirement''\<rparr>),
                reportFindings cfg stateCode is st)))"

section \<open>The search index check\<close>

definition validateSearchIndex :: "world \<Rightarrow> config \<Rightarrow> state \<Rightarrow> state" where
  "validateSearchIndex w cfg st0 =
     (let st1 = log cfg (NL # ''--- Validating Search Index ---'') st0 in
      case searchIndexFile w of
        Missing \<Rightarrow>
          warn cfg ''search-index.json exists'' (JStr ''Run build-search-index.js to generate'') st1
      | ParseError m \<Rightarrow>
          fail cfg ''search-index.json is valid JSON'' (JStr m)
            (pass cfg ''search-index.json exists'' st1)
      | Parsed index \<Rightarrow>
          (let st2 = pass cfg ''search-index.json exists'' st1 in
           if \<not> isArray index
           then fail cfg ''search-index.json is an array'' (JStr []) st2
           else pass cfg (''search-index.json has '' @ show_nat (arrayLength index) @ '' entries'')
                  st2))"

section \<open>The report and the run\<close>

text \<open>
  \<^verbatim>\<open>stateStats[stateCode] = value\<close> on the plain object \<^verbatim>\<open>stateStats\<close>, kept as the list
  of its own properties. Assigning to \<^verbatim>\<open>__proto__\<close> sets the prototype (the value is an
  object or \<^verbatim>\<open>null\<close>) and creates no own property. The report only counts the
  properties, so their order is of no consequence.
\<close>

fun assign :: "(string \<times> 'a) list \<Rightarrow> string \<Rightarrow> 'a \<Rightarrow> (string \<times> 'a) list" where
  "assign [] k v = (if k = ''__proto__'' then [] else [(k, v)])"
| "assign ((k', v') # kvs) k v =
     (if k = ''__proto__'' then (k', v') # kvs
      else if k = k' then (k, v) # kvs
      else (k', v') # assign kvs k v)"

type_synonym stateStats = "(string \<times> stats option) list"

text \<open>Lines 207 to 215: the two counts over \<^verbatim>\<open>Object.entries(stateStats)\<close>.\<close>

definition statesWithReq :: "stateStats \<Rightarrow> nat" where
  "statesWithReq stateStats =
     length (filter (\<lambda>(k, s). case s of None \<Rightarrow> False | Some x \<Rightarrow> truthy (hasReq x)) stateStats)"

definition statesWithIssues :: "stateStats \<Rightarrow> nat" where
  "statesWithIssues stateStats =
     length (filter (\<lambda>(k, s). case s of None \<Rightarrow> False | Some x \<Rightarrow> issues x > 0) stateStats)"

text \<open>
  \<^verbatim>\<open>generateReport\<close>. \<open>now\<close> is the text \<^verbatim>\<open>new Date().toISOString()\<close> gives when the
  report is built.
\<close>

definition generateReport :: "config \<Rightarrow> string \<Rightarrow> stateStats \<Rightarrow> state \<Rightarrow> state" where
  "generateReport cfg now stateStats st =
     (if json cfg
      then st\<lparr>stdout := stdout st @
                 [Json \<lparr>r_timestamp = now,
                        r_status = (if errors st > 0 then ''failed''
                                    else if warnings st > 0 then ''passed_with_warnings''
                                    else ''passed''),
                        r_states = length stateStats,
                        r_statesWithRequirements = statesWithReq stateStats,
                        r_statesWithIssues = statesWithIssues stateStats,
                        r_passed = passed st, r_warnings = warnings st, r_errors = errors st,
                        r_details = details st\<rparr>],
              exitCode := Some (if errors st > 0 then 1 else 0)\<rparr>
      else
        (let st1 = fold (log cfg)
               [NL # ''========================================'',
                ''         VERIFICATION SUMMARY'',
                ''========================================'' @ [NL],
                ''Data Coverage:'',
                ''  States: '' @ show_nat (length stateStats),
                ''  States with Requirements: '' @ show_nat (statesWithReq stateStats),
                ''  States with Issues: '' @ show_nat (statesWithIssues stateStats),
                NL # ''Verification Results:'',
                ''  '' @ CHECK_MARK @ '' Passed: '' @ show_nat (passed st),
                ''  '' @ WARNING_SIGN @ '' Warnings: '' @ show_nat (warnings st),
                ''  '' @ BALLOT_X @ '' Errors: '' @ show_nat (errors st),
                NL # ''----------------------------------------''] st;
             st2 = (if errors st1 > 0
                    then (log cfg (BALLOT_X @ '' VERIFICATION FAILED'') st1)\<lparr>exitCode := Some 1\<rparr>
                    else if warnings st1 > 0
                    then log cfg (WARNING_SIGN @ '' VERIFICATION PASSED WITH WARNINGS'') st1
                    else log cfg (CHECK_MARK @ '' VERIFICATION PASSED'') st1)
         in log cfg (''----------------------------------------'' @ [NL]) st2))"

text \<open>The loop of \<^verbatim>\<open>main\<close> over \<^verbatim>\<open>Object.entries(index.states)\<close>; a throw ends it.\<close>

fun validateStates ::
  "world \<Rightarrow> config \<Rightarrow> string list \<Rightarrow> stateStats \<Rightarrow> state \<Rightarrow> (exn + stateStats) \<times> state" where
  "validateStates w cfg [] stateStats st = (Inr stateStats, st)"
| "validateStates w cfg (stateCode # rest) stateStats st =
     (case validateStateFile w cfg stateCode st of
        (Inl e, st1) \<Rightarrow> (Inl e, st1)
      | (Inr r, st1) \<Rightarrow> validateStates w cfg rest (assign stateStats stateCode r) st1)"

text \<open>The lines \<^verbatim>\<open>main\<close> logs first.\<close>

definition banner :: "world \<Rightarrow> config \<Rightarrow> state \<Rightarrow> state" where
  "banner w cfg st =
     fold (log cfg)
       [''========================================'',
        ''  Apprenticeship Ratios Verification'',
        ''========================================'',
        ''Data directory: '' @ dataDir w] st"

definition CANNOT_CONTINUE :: string where
  "CANNOT_CONTINUE = NL # ''Cannot continue without valid index.json''"

text \<open>The body of the asynchronous function \<^verbatim>\<open>main\<close>: it returns or it throws.\<close>

definition main_body :: "world \<Rightarrow> config \<Rightarrow> string \<Rightarrow> state \<Rightarrow> (exn + unit) \<times> state" where
  "main_body w cfg now st0 =
     (case validateIndexFile w cfg (banner w cfg st0) of
        (Inl e, st1) \<Rightarrow> (Inl e, st1)
      | (Inr None, st1) \<Rightarrow> (Inr (), (log cfg CANNOT_CONTINUE st1)\<lparr>exitCode := Some 1\<rparr>)
      | (Inr (Some index), st1) \<Rightarrow>
          (let st2 = log cfg (NL # ''--- Validating State Files ---'') st1 in
           case validateStates w cfg (indexStates index) [] st2 of
             (Inl e, st3) \<Rightarrow> (Inl e, st3)
           | (Inr stateStats, st3) \<Rightarrow>
               (Inr (), generateReport cfg now stateStats (validateSearchIndex w cfg st3))))"

text \<open>
  The whole run, from the initial state: \<^verbatim>\<open>main().catch(...)\<close> reports a throw on the
  error stream (followed by the runtime's rendering of the error) and sets the exit code.
\<close>

definition main :: "world \<Rightarrow> config \<Rightarrow> string \<Rightarrow> state" where
  "main w cfg now =
     (case main_body w cfg now initial of
        (Inl e, st) \<Rightarrow> st\<lparr>stderr := stderr st @ [''Verification script failed:''],
                           exitCode := Some 1\<rparr>
      | (Inr u, st) \<Rightarrow> st)"

section \<open>Notions used to state the properties\<close>

text \<open>
  The run reaches \<^verbatim>\<open>generateReport\<close>: the index validator returns the index and the
  loop over the regions ends without a throw.
\<close>

definition reachesReport :: "world \<Rightarrow> config \<Rightarrow> bool" where
  "reachesReport w cfg =
     (case validateIndexFile w cfg (banner w cfg initial) of
        (Inr (Some index), st1) \<Rightarrow>
          (case validateStates w cfg (indexStates index) []
                  (log cfg (NL # ''--- Validating State Files ---'') st1) of
             (Inr stateStats, st3) \<Rightarrow> True
           | (Inl e, st3) \<Rightarrow> False)
      | (Inr None, st1) \<Rightarrow> False
      | (Inl e, st1) \<Rightarrow> False)"

text \<open>
  Between two states only lines of text were printed (none in the machine-readable mode),
  none of them the line that announces an abort, and the exit code and the error stream
  are as they were.
\<close>

definition printsOnlyFindings :: "config \<Rightarrow> state \<Rightarrow> state \<Rightarrow> bool" where
  "printsOnlyFindings cfg st st' \<longleftrightarrow>
     exitCode st' = exitCode st \<and> stderr st' = stderr st \<and>
     (\<exists>ls. stdout st' = stdout st @ map Text ls \<and> (json cfg \<longrightarrow> ls = []) \<and>
           CANNOT_CONTINUE \<notin> set ls)"

text \<open>Inputs for the examples: a region document that passes every check, an index that
  lists every expected code, and a data directory made of them.\<close>

definition exampleDoc :: "string \<Rightarrow> jvalue" where
  "exampleDoc c =
     JObj [(''state'', JStr c), (''stateName'', JStr ''Name''), (''agencyType'', JStr ''OA''),
           (''hasPublicWorksRequirement'', JBool False), (''lastVerified'', JStr ''2024-01-15'')]"

definition exampleIndex :: jvalue where
  "exampleIndex =
     JObj [(''lastUpdated'', JStr ''2024-01-15''),
           (''states'', JObj (map (\<lambda>c. (c, JObj [])) EXPECTED_STATES))]"

definition exampleWorld :: world where
  "exampleWorld =
     \<lparr>dataDir = ''data'', indexFile = Parsed exampleIndex,
      stateFile = (\<lambda>c. Parsed (exampleDoc c)), searchIndexFile = Parsed (JArr []),
      dateIsValid = (\<lambda>p. p = JStr ''2024-01-15'')\<rparr>"

text \<open>A data directory whose index lists one region only.\<close>

definition smallIndex :: jvalue where
  "smallIndex =
     JObj [(''lastUpdated'', JStr ''2024-01-15''), (''states'', JObj [(''CA'', JObj [])])]"

definition smallWorld :: world where
  "smallWorld = exampleWorld\<lparr>indexFile := Parsed smallIndex\<rparr>"

definition jsonMode :: config where
  "jsonMode = \<lparr>verbose = False, json = True\<rparr>"

definition textMode :: config where
  "textMode = \<lparr>verbose = True, json = False\<rparr>"

text \<open>A region document with nine issues.\<close>

definition poorDoc :: jvalue where
  "poorDoc = JObj [(''hasPublicWorksRequirement'', JStr ''yes''), (''requirement'', JObj [])]"

text \<open>
  The date conversion of line 85 throws: \<^verbatim>\<open>lastUpdated\<close> is truthy and has no conversion
  to a primitive.
\<close>

definition dateConversionThrows :: "jvalue \<Rightarrow> bool" where
  "dateConversionThrows index =
     (case getProp index ''lastUpdated'' of
        None \<Rightarrow> False
      | Some v \<Rightarrow> truthy (Some v) \<and> toPrimitive v = None)"

text \<open>Two index documents: \<^verbatim>\<open>states\<close> is a string, \<^verbatim>\<open>states\<close> is an empty array.\<close>

definition stringStatesIndex :: jvalue where
  "stringStatesIndex = JObj [(''lastUpdated'', JStr ''2024-01-15''), (''states'', JStr ''CA'')]"

definition arrayIndex :: jvalue where
  "arrayIndex = JObj [(''lastUpdated'', JStr ''2024-01-15''), (''states'', JArr [])]"

text \<open>
  Region documents for the examples, and two classes of issue texts: those about the
  statute URL, and those that come from the checks inside the requirement object.
\<close>

definition aboutStatuteUrl :: "string \<Rightarrow> bool" where
  "aboutStatuteUrl i \<longleftrightarrow>
     i = ''Missing requirement.statuteUrl'' \<or> startsWith i ''Invalid statute URL: ''"

definition urlDoc :: "jvalue \<Rightarrow> jvalue" where
  "urlDoc u =
     JObj [(''state'', JStr ''CA''), (''stateName'', JStr ''California''),
           (''agencyType'', JStr ''SAA''), (''hasPublicWorksRequirement'', JBool True),
           (''requirement'',
              JObj [(''requirementType'', JStr ''ratio''), (''ratioDescription'', JStr ''1:5''),
                    (''statute'', JStr ''Labor Code 1777.5''), (''statuteUrl'', u)]),
           (''lastVerified'', JStr ''2024-01-15'')]"

definition truthyStringDoc :: jvalue where
  "truthyStringDoc =
     JObj [(''state'', JStr ''CA''), (''stateName'', JStr ''California''),
           (''agencyType'', JStr ''SAA''), (''hasPublicWorksRequirement'', JStr ''true''),
           (''requirement'',
              JObj [(''requirementType'', JStr ''ratio''), (''statuteUrl'', JStr ''ftp://x'')]),
           (''lastVerified'', JStr ''2024-01-15'')]"

definition aboutRequirement :: "string \<Rightarrow> bool" where
  "aboutRequirement i \<longleftrightarrow>
     startsWith i ''Missing requirement.'' \<or> startsWith i ''Invalid statute URL: ''"

text \<open>
  A printed item with the timestamp of a report replaced; lines of text have none.
\<close>

definition retime :: "string \<Rightarrow> printed \<Rightarrow> printed" where
  "retime t p = (case p of Text s \<Rightarrow> Text s | Json r \<Rightarrow> Json (r\<lparr>r_timestamp := t\<rparr>))"

fun isText :: "printed \<Rightarrow> bool" where
  "isText (Text s) = True"
| "isText (Json r) = False"

text \<open>
  The inputs of a fully valid run: the index parses to a document whose \<^verbatim>\<open>lastUpdated\<close>
  is a valid date and whose \<^verbatim>\<open>states\<close> is a mapping with every expected code among its
  keys, and for every key the region file parses to a document that passes every content
  check.
\<close>

definition validInputs :: "world \<Rightarrow> bool" where
  "validInputs w \<longleftrightarrow>
     (\<exists>index v p kvs.
        indexFile w = Parsed index \<and>
        getProp index ''lastUpdated'' = Some v \<and> truthy (Some v) \<and>
        toPrimitive v = Some p \<and> dateIsValid w p \<and>
        getProp index ''states'' = Some (JObj kvs) \<and>
        set EXPECTED_STATES \<subseteq> fst ` set kvs \<and>
        (\<forall>c \<in> fst ` set kvs.
           \<exists>data. stateFile w c = Parsed data \<and> contentIssues c data = Inr []))"

text \<open>The example data directory without a search index, and with one that is an object.\<close>

definition noSearchWorld :: world where
  "noSearchWorld = exampleWorld\<lparr>searchIndexFile := Missing\<rparr>"

definition objectSearchWorld :: world where
  "objectSearchWorld = exampleWorld\<lparr>searchIndexFile := Parsed (JObj [])\<rparr>"

text \<open>
  The index validator returns \<^verbatim>\<open>null\<close>: the index file is missing, it does not parse,
  or it parses to a document (not \<^verbatim>\<open>null\<close>, its date conversion not throwing) whose
  \<^verbatim>\<open>states\<close> is falsy or not of type \<^verbatim>\<open>object\<close>.
\<close>

definition indexFatal :: "world \<Rightarrow> bool" where
  "indexFatal w =
     (case indexFile w of
        Missing \<Rightarrow> True
      | ParseError m \<Rightarrow> True
      | Parsed index \<Rightarrow>
          index \<noteq> JNull \<and> \<not> dateConversionThrows index \<and>
          \<not> (truthy (getProp index ''states'') \<and> typeof (getProp index ''states'') = ''object''))"

text \<open>
  Data directories for the examples: a region file that holds \<^verbatim>\<open>null\<close>, and a directory
  with no file at all.
\<close>

definition nullRegionWorld :: world where
  "nullRegionWorld = smallWorld\<lparr>stateFile := (\<lambda>c. Parsed JNull)\<rparr>"

definition abortWorld :: world where
  "abortWorld = exampleWorld\<lparr>indexFile := Missing, stateFile := (\<lambda>c. Missing)\<rparr>"

text \<open>The part of the state that both output modes report: the counters and the detail log.\<close>

definition results :: "state \<Rightarrow> nat \<times> nat \<times> nat \<times> detail list" where
  "results st = (passed st, warnings st, errors st, details st)"

text \<open>
  The call \<^verbatim>\<open>generateReport(stateStats)\<close> of line 279, when \<^verbatim>\<open>main\<close> reaches it: its
  argument, and the state it finds (the counters and the detail log as the validators
  left them). \<open>None\<close> when the run ends before that line.
\<close>

definition reportInput :: "world \<Rightarrow> config \<Rightarrow> (stateStats \<times> state) option" where
  "reportInput w cfg =
     (case validateIndexFile w cfg (banner w cfg initial) of
        (Inr (Some index), st1) \<Rightarrow>
          (case validateStates w cfg (indexStates index) []
                  (log cfg (NL # ''--- Validating State Files ---'') st1) of
             (Inr stateStats, st3) \<Rightarrow> Some (stateStats, validateSearchIndex w cfg st3)
           | (Inl e, st3) \<Rightarrow> None)
      | (Inr None, st1) \<Rightarrow> None
      | (Inl e, st1) \<Rightarrow> None)"

text \<open>Each counter is the number of entries of its kind in the detail log.\<close>

definition counted :: "state \<Rightarrow> bool" where
  "counted st \<longleftrightarrow>
     errors st = length (filter (\<lambda>d. d_type d = Error) (details st)) \<and>
     warnings st = length (filter (\<lambda>d. d_type d = Warning) (details st))"

text \<open>
  More data directories for the examples. The small directory without its region file.
  An index whose \<^verbatim>\<open>lastUpdated\<close> is the object \<^verbatim>\<open>{"toString": 1}\<close>, beside a valid
  region file. An index that lists two regions, the file of the first holding \<^verbatim>\<open>null\<close>
  and the file of the second missing.
\<close>

definition missingRegionWorld :: world where
  "missingRegionWorld = smallWorld\<lparr>stateFile := (\<lambda>c. Missing)\<rparr>"

definition badDateIndex :: jvalue where
  "badDateIndex =
     JObj [(''lastUpdated'', JObj [(''toString'', JNum ''1'')]),
           (''states'', JObj [(''CA'', JObj [])])]"

definition badDateWorld :: world where
  "badDateWorld = exampleWorld\<lparr>indexFile := Parsed badDateIndex\<rparr>"

definition twoRegionIndex :: jvalue where
  "twoRegionIndex =
     JObj [(''lastUpdated'', JStr ''2024-01-15''),
           (''states'', JObj [(''CA'', JObj []), (''TX'', JObj [])])]"

definition twoRegionWorld :: world where
  "twoRegionWorld =
     exampleWorld\<lparr>indexFile := Parsed twoRegionIndex,
                   stateFile := (\<lambda>c. if c = ''CA'' then Parsed JNull else Missing)\<rparr>"

text \<open>
  A region document whose \<^verbatim>\<open>hasPublicWorksRequirement\<close> is the string \<^verbatim>\<open>"true"\<close> and
  whose requirement object has the number 42 as its \<^verbatim>\<open>statuteUrl\<close>, and the small data
  directory with that document as its region file.
\<close>

definition numberUrlDoc :: jvalue where
  "numberUrlDoc =
     JObj [(''state'', JStr ''CA''), (''stateName'', JStr ''California''),
           (''agencyType'', JStr ''SAA''), (''hasPublicWorksRequirement'', JStr ''true''),
           (''requirement'',
              JObj [(''requirementType'', JStr ''ratio''), (''ratioDescription'', JStr ''1:5''),
                    (''statute'', JStr ''Labor Code 1777.5''), (''statuteUrl'', JNum ''42'')]),
           (''lastVerified'', JStr ''2024-01-15'')]"

definition numberUrlWorld :: world where
  "numberUrlWorld = smallWorld\<lparr>stateFile := (\<lambda>c. Parsed numberUrlDoc)\<rparr>"

section \<open>What the logging primitives change\<close>

lemma log_fields [simp]:
  "passed (log cfg m st) = passed st"
  "warnings (log cfg m st) = warnings st"
  "errors (log cfg m st) = errors st"
  "details (log cfg m st) = details st"
  "stderr (log cfg m st) = stderr st"
  "exitCode (log cfg m st) = exitCode st"
  by (simp_all add: log_def)

lemma stdout_log [simp]:
  "stdout (log cfg m st) = stdout st @ (if json cfg then [] else [Text m])"
  by (simp add: log_def)

lemma pass_fields [simp]:
  "passed (pass cfg c st) = passed st + 1"
  "warnings (pass cfg c st) = warnings st"
  "errors (pass cfg c st) = errors st"
  "details (pass cfg c st) = details st"
  "stderr (pass cfg c st) = stderr st"
  "exitCode (pass cfg c st) = exitCode st"
  by (simp_all add: pass_def Let_def)

lemma stdout_pass [simp]:
  "stdout (pass cfg c st) =
     stdout st @ (if verbose cfg \<and> \<not> json cfg then [Text (''  '' @ CHECK_MARK @ '' '' @ c)] else [])"
  by (simp add: pass_def Let_def)

lemma warn_fields [simp]:
  "passed (warn cfg c d st) = passed st"
  "warnings (warn cfg c d st) = warnings st + 1"
  "errors (warn cfg c d st) = errors st"
  "details (warn cfg c d st) = details st @ [\<lparr>d_type = Warning, d_check = c, d_details = d\<rparr>]"
  "stderr (warn cfg c d st) = stderr st"
  "exitCode (warn cfg c d st) = exitCode st"
  by (simp_all add: warn_def)

lemma stdout_warn [simp]:
  "stdout (warn cfg c d st) =
     stdout st @ (if json cfg then []
                  else [Text (''  '' @ WARNING_SIGN @ '' WARNING: '' @ c @ detailSuffix d)])"
  by (simp add: warn_def)

lemma fail_fields [simp]:
  "passed (fail cfg c d st) = passed st"
  "warnings (fail cfg c d st) = warnings st"
  "errors (fail cfg c d st) = errors st + 1"
  "details (fail cfg c d st) = details st @ [\<lparr>d_type = Error, d_check = c, d_details = d\<rparr>]"
  "stderr (fail cfg c d st) = stderr st"
  "exitCode (fail cfg c d st) = exitCode st"
  by (simp_all add: fail_def)

lemma stdout_fail [simp]:
  "stdout (fail cfg c d st) =
     stdout st @ (if json cfg then []
                  else [Text (''  '' @ BALLOT_X @ '' ERROR: '' @ c @ detailSuffix d)])"
  by (simp add: fail_def)

lemma state_eqI:
  "passed a = passed b \<Longrightarrow> warnings a = warnings b \<Longrightarrow> errors a = errors b \<Longrightarrow>
   details a = details b \<Longrightarrow> stdout a = stdout b \<Longrightarrow> stderr a = stderr b \<Longrightarrow>
   exitCode a = exitCode b \<Longrightarrow> (a::state) = b"
  by simp

lemma fold_log_fields [simp]:
  "passed (fold (log cfg) ms st) = passed st"
  "warnings (fold (log cfg) ms st) = warnings st"
  "errors (fold (log cfg) ms st) = errors st"
  "details (fold (log cfg) ms st) = details st"
  "stderr (fold (log cfg) ms st) = stderr st"
  "exitCode (fold (log cfg) ms st) = exitCode st"
  by (induction ms arbitrary: st; simp)+

lemma stdout_fold_log [simp]:
  "stdout (fold (log cfg) ms st) = stdout st @ (if json cfg then [] else map Text ms)"
  by (induction ms arbitrary: st) simp_all

lemma generateReport_counters [simp]:
  "passed (generateReport cfg now ss st) = passed st"
  "warnings (generateReport cfg now ss st) = warnings st"
  "errors (generateReport cfg now ss st) = errors st"
  "details (generateReport cfg now ss st) = details st"
  "stderr (generateReport cfg now ss st) = stderr st"
  by (simp_all add: generateReport_def Let_def)

lemma generateReport_exitCode:
  "exitCode (generateReport cfg now ss st) =
     (if json cfg then Some (if errors st > 0 then 1 else 0)
      else if errors st > 0 then Some 1 else exitCode st)"
  by (simp add: generateReport_def Let_def)

lemma generateReport_stdout_json:
  "json cfg \<Longrightarrow> stdout (generateReport cfg now ss st) =
     stdout st @
       [Json \<lparr>r_timestamp = now,
              r_status = (if errors st > 0 then ''failed''
                          else if warnings st > 0 then ''passed_with_warnings''
                          else ''passed''),
              r_states = length ss,
              r_statesWithRequirements = statesWithReq ss,
              r_statesWithIssues = statesWithIssues ss,
              r_passed = passed st, r_warnings = warnings st, r_errors = errors st,
              r_details = details st\<rparr>]"
  by (simp add: generateReport_def)

lemma generateReport_stdout_text:
  "\<not> json cfg \<Longrightarrow> \<exists>pre. stdout (generateReport cfg now ss st) =
     pre @ [Text (if errors st > 0 then BALLOT_X @ '' VERIFICATION FAILED''
                  else if warnings st > 0 then WARNING_SIGN @ '' VERIFICATION PASSED WITH WARNINGS''
                  else CHECK_MARK @ '' VERIFICATION PASSED''),
            Text (''----------------------------------------'' @ [NL])]"
  by (simp add: generateReport_def Let_def)

section \<open>What the validators print\<close>

lemma pof_refl [simp]: "printsOnlyFindings cfg st st"
  by (simp add: printsOnlyFindings_def)

lemma pof_step:
  assumes "printsOnlyFindings cfg st st1"
    and "exitCode st2 = exitCode st1" and "stderr st2 = stderr st1"
    and "stdout st2 = stdout st1 @ (if json cfg then [] else map Text ms)"
    and "CANNOT_CONTINUE \<notin> set ms"
  shows "printsOnlyFindings cfg st st2"
proof -
  from assms(1) obtain ls where ls: "stdout st1 = stdout st @ map Text ls"
    "json cfg \<longrightarrow> ls = []" "CANNOT_CONTINUE \<notin> set ls"
    "exitCode st1 = exitCode st" "stderr st1 = stderr st"
    unfolding printsOnlyFindings_def by blast
  let ?ls = "ls @ (if json cfg then [] else ms)"
  have "stdout st2 = stdout st @ map Text ?ls" using assms(4) ls(1) by simp
  moreover have "json cfg \<longrightarrow> ?ls = []" using ls(2) by simp
  moreover have "CANNOT_CONTINUE \<notin> set ?ls" using ls(3) assms(5) by simp
  ultimately have "\<exists>ls. stdout st2 = stdout st @ map Text ls \<and> (json cfg \<longrightarrow> ls = []) \<and>
      CANNOT_CONTINUE \<notin> set ls"
    by (intro exI [of _ ?ls] conjI)
  then show ?thesis
    unfolding printsOnlyFindings_def using assms(2,3) ls(4,5) by simp
qed

lemma pof_trans:
  assumes "printsOnlyFindings cfg a b" and "printsOnlyFindings cfg b c"
  shows "printsOnlyFindings cfg a c"
proof -
  from assms(2) obtain ls where ls: "stdout c = stdout b @ map Text ls"
    "json cfg \<longrightarrow> ls = []" "CANNOT_CONTINUE \<notin> set ls"
    "exitCode c = exitCode b" "stderr c = stderr b"
    unfolding printsOnlyFindings_def by blast
  show ?thesis
    by (rule pof_step [OF assms(1) ls(4) ls(5), of ls]) (use ls in auto)
qed

lemma pof_log:
  "m \<noteq> CANNOT_CONTINUE \<Longrightarrow> printsOnlyFindings cfg st st' \<Longrightarrow> printsOnlyFindings cfg st (log cfg m st')"
  by (rule pof_step [where ms = "[m]" and ?st1.0 = st']) simp_all

lemma pof_pass:
  "printsOnlyFindings cfg st st' \<Longrightarrow> printsOnlyFindings cfg st (pass cfg c st')"
  by (rule pof_step [where ms = "if verbose cfg then [''  '' @ CHECK_MARK @ '' '' @ c] else []"
        and ?st1.0 = st'])
     (simp_all add: CANNOT_CONTINUE_def NL_def)

lemma pof_warn:
  "printsOnlyFindings cfg st st' \<Longrightarrow> printsOnlyFindings cfg st (warn cfg c d st')"
  by (rule pof_step [where ms = "[''  '' @ WARNING_SIGN @ '' WARNING: '' @ c @ detailSuffix d]"
        and ?st1.0 = st'])
     (simp_all add: CANNOT_CONTINUE_def NL_def)

lemma pof_fail:
  "printsOnlyFindings cfg st st' \<Longrightarrow> printsOnlyFindings cfg st (fail cfg c d st')"
  by (rule pof_step [where ms = "[''  '' @ BALLOT_X @ '' ERROR: '' @ c @ detailSuffix d]"
        and ?st1.0 = st'])
     (simp_all add: CANNOT_CONTINUE_def NL_def)

lemma header_not_cc:
  "NL # ''--- Validating index.json ---'' \<noteq> CANNOT_CONTINUE"
  "NL # ''--- Validating State Files ---'' \<noteq> CANNOT_CONTINUE"
  "NL # ''--- Validating Search Index ---'' \<noteq> CANNOT_CONTINUE"
  by (simp_all add: CANNOT_CONTINUE_def)

lemmas pof_intros = pof_log pof_pass pof_warn pof_fail header_not_cc

lemma pof_checkLastUpdated:
  "checkLastUpdated w cfg index st = Inr st' \<Longrightarrow> printsOnlyFindings cfg st st'"
  by (auto simp: checkLastUpdated_def split: option.splits if_splits intro: pof_intros)

lemma pof_checkCoverage:
  "printsOnlyFindings cfg st st' \<Longrightarrow> printsOnlyFindings cfg st (checkCoverage cfg index st')"
  by (simp add: checkCoverage_def pof_intros)

lemma pof_validateIndexFile:
  "printsOnlyFindings cfg st (snd (validateIndexFile w cfg st))"
proof (cases "indexFile w")
  case Missing
  then show ?thesis by (simp add: validateIndexFile_def Let_def pof_intros)
next
  case (ParseError m)
  then show ?thesis by (simp add: validateIndexFile_def Let_def pof_intros)
next
  case (Parsed index)
  let ?st2 = "pass cfg ''index.json is valid JSON''
      (pass cfg ''index.json exists'' (log cfg (NL # ''--- Validating index.json ---'') st))"
  have st2: "printsOnlyFindings cfg st ?st2" by (simp add: pof_intros)
  show ?thesis
  proof (cases "checkLastUpdated w cfg index ?st2")
    case (Inl e)
    with Parsed st2 show ?thesis by (simp add: validateIndexFile_def Let_def)
  next
    case (Inr st3)
    then have "printsOnlyFindings cfg st st3"
      using pof_trans [OF st2 pof_checkLastUpdated] by blast
    with Parsed Inr st2 show ?thesis
      by (simp add: validateIndexFile_def Let_def pof_intros pof_checkCoverage)
  qed
qed

lemma pof_fold_warn:
  "printsOnlyFindings cfg st st' \<Longrightarrow>
   printsOnlyFindings cfg st (fold (\<lambda>issue. warn cfg c (JStr issue)) iss st')"
  by (induction iss arbitrary: st') (simp_all add: pof_warn)

lemma pof_reportFindings:
  "printsOnlyFindings cfg st st' \<Longrightarrow> printsOnlyFindings cfg st (reportFindings cfg c iss st')"
  by (simp add: reportFindings_def Let_def pof_fold_warn pof_intros)

lemma pof_validateStateFile:
  "printsOnlyFindings cfg st (snd (validateStateFile w cfg c st))"
  by (simp add: validateStateFile_def pof_reportFindings pof_intros
      split: file_result.splits sum.splits)

lemma pof_validateStates:
  "printsOnlyFindings cfg st0 st \<Longrightarrow>
   printsOnlyFindings cfg st0 (snd (validateStates w cfg cs ss st))"
proof (induction cs arbitrary: ss st)
  case Nil
  then show ?case by simp
next
  case (Cons c cs)
  obtain r st1 where r: "validateStateFile w cfg c st = (r, st1)"
    by (cases "validateStateFile w cfg c st")
  have "printsOnlyFindings cfg st st1"
    using pof_validateStateFile [of cfg st w c] r by simp
  with Cons.prems have step: "printsOnlyFindings cfg st0 st1"
    by (rule pof_trans)
  show ?case
  proof (cases r)
    case (Inl e)
    with r step show ?thesis by simp
  next
    case (Inr v)
    with r step Cons.IH [of st1 "assign ss c v"] show ?thesis by simp
  qed
qed

lemma pof_validateSearchIndex:
  "printsOnlyFindings cfg st st' \<Longrightarrow> printsOnlyFindings cfg st (validateSearchIndex w cfg st')"
  by (simp add: validateSearchIndex_def Let_def pof_intros split: file_result.splits)

lemma pof_banner: "printsOnlyFindings cfg st (banner w cfg st)"
  by (rule pof_step [where ms = "[''========================================'',
        ''  Apprenticeship Ratios Verification'',
        ''========================================'',
        ''Data directory: '' @ dataDir w]" and ?st1.0 = st])
     (simp_all add: banner_def CANNOT_CONTINUE_def NL_def)

section \<open>The counters do not depend on the output mode\<close>

lemma results_log [simp]: "results (log cfg m st) = results st"
  by (simp add: results_def)

lemma results_prims:
  assumes "results a = results b"
  shows "results (pass cfg1 c a) = results (pass cfg2 c b)"
    and "results (warn cfg1 c d a) = results (warn cfg2 c d b)"
    and "results (fail cfg1 c d a) = results (fail cfg2 c d b)"
  using assms by (simp_all add: results_def)

lemma results_checkLastUpdated:
  assumes "results a = results b"
  shows "case (checkLastUpdated w cfg1 index a, checkLastUpdated w cfg2 index b) of
           (Inl e1, Inl e2) \<Rightarrow> True
         | (Inr a', Inr b') \<Rightarrow> results a' = results b'
         | _ \<Rightarrow> False"
  using assms
  by (simp add: checkLastUpdated_def results_prims split: option.splits)

lemma results_checkCoverage:
  "results a = results b \<Longrightarrow> results (checkCoverage cfg1 index a) = results (checkCoverage cfg2 index b)"
  by (simp add: checkCoverage_def results_prims)

lemma results_validateIndexFile:
  assumes "results a = results b"
  shows "fst (validateIndexFile w cfg1 a) = fst (validateIndexFile w cfg2 b)"
    and "results (snd (validateIndexFile w cfg1 a)) = results (snd (validateIndexFile w cfg2 b))"
proof -
  let ?a1 = "log cfg1 (NL # ''--- Validating index.json ---'') a"
  let ?b1 = "log cfg2 (NL # ''--- Validating index.json ---'') b"
  let ?a2 = "pass cfg1 ''index.json is valid JSON'' (pass cfg1 ''index.json exists'' ?a1)"
  let ?b2 = "pass cfg2 ''index.json is valid JSON'' (pass cfg2 ''index.json exists'' ?b1)"
  have r1: "results ?a1 = results ?b1" using assms by simp
  have r2: "results ?a2 = results ?b2"
    by (intro results_prims r1)
  have both: "fst (validateIndexFile w cfg1 a) = fst (validateIndexFile w cfg2 b) \<and>
    results (snd (validateIndexFile w cfg1 a)) = results (snd (validateIndexFile w cfg2 b))"
  proof (cases "indexFile w")
    case Missing
    then show ?thesis
      using results_prims(3) [OF r1] by (simp add: validateIndexFile_def Let_def)
  next
    case (ParseError m)
    then show ?thesis
      using results_prims(3) [OF results_prims(1) [OF r1]]
      by (simp add: validateIndexFile_def Let_def)
  next
    case (Parsed index)
    show ?thesis
    proof (cases "index = JNull")
      case True
      with Parsed r2 show ?thesis by (simp add: validateIndexFile_def Let_def)
    next
      case False
      note lu = results_checkLastUpdated [OF r2, of w cfg1 index cfg2]
      show ?thesis
      proof (cases "checkLastUpdated w cfg1 index ?a2")
        case (Inl e)
        with lu obtain e' where "checkLastUpdated w cfg2 index ?b2 = Inl e'"
          by (cases "checkLastUpdated w cfg2 index ?b2") simp_all
        with Inl Parsed False r2 show ?thesis
          by (cases e, cases e') (simp add: validateIndexFile_def Let_def)
      next
        case (Inr a3)
        with lu obtain b3 where b3: "checkLastUpdated w cfg2 index ?b2 = Inr b3"
          and r3: "results a3 = results b3"
          by (cases "checkLastUpdated w cfg2 index ?b2") simp_all
        show ?thesis
          using Parsed False Inr b3 results_prims(3) [OF r3]
            results_checkCoverage [OF results_prims(1) [OF r3]]
          by (simp add: validateIndexFile_def Let_def)
      qed
    qed
  qed
  then show "fst (validateIndexFile w cfg1 a) = fst (validateIndexFile w cfg2 b)"
    and "results (snd (validateIndexFile w cfg1 a)) = results (snd (validateIndexFile w cfg2 b))"
    by simp_all
qed

lemma results_fold_warn:
  "results a = results b \<Longrightarrow>
   results (fold (\<lambda>issue. warn cfg1 c (JStr issue)) iss a)
     = results (fold (\<lambda>issue. warn cfg2 c (JStr issue)) iss b)"
proof (induction iss arbitrary: a b)
  case Nil
  then show ?case by simp
next
  case (Cons i iss)
  from Cons.IH [OF results_prims(2) [OF Cons.prems]] show ?case by simp
qed

lemma results_reportFindings:
  "results a = results b \<Longrightarrow>
   results (reportFindings cfg1 c iss a) = results (reportFindings cfg2 c iss b)"
  by (simp add: reportFindings_def Let_def results_prims results_fold_warn)

lemma results_validateStateFile:
  assumes "results a = results b"
  shows "fst (validateStateFile w cfg1 c a) = fst (validateStateFile w cfg2 c b)"
    and "results (snd (validateStateFile w cfg1 c a)) = results (snd (validateStateFile w cfg2 c b))"
  using assms results_prims(3) [OF assms] results_reportFindings [OF assms]
  by (simp_all add: validateStateFile_def split: file_result.splits sum.splits)

lemma results_validateStates:
  assumes "results a = results b"
  shows "fst (validateStates w cfg1 cs ss a) = fst (validateStates w cfg2 cs ss b) \<and>
    results (snd (validateStates w cfg1 cs ss a)) = results (snd (validateStates w cfg2 cs ss b))"
  using assms
proof (induction cs arbitrary: ss a b)
  case Nil
  then show ?case by simp
next
  case (Cons c cs)
  obtain q a1 where qa: "validateStateFile w cfg1 c a = (q, a1)"
    by (cases "validateStateFile w cfg1 c a")
  obtain q' b1 where qb': "validateStateFile w cfg2 c b = (q', b1)"
    by (cases "validateStateFile w cfg2 c b")
  have same: "q' = q" and r1: "results a1 = results b1"
    using results_validateStateFile [OF Cons.prems, of w cfg1 c cfg2] qa qb' by simp_all
  have qb: "validateStateFile w cfg2 c b = (q, b1)"
    using qb' same by simp
  show ?case
  proof (cases q)
    case (Inl e)
    show ?thesis
      using r1 by (simp add: qa qb Inl)
  next
    case (Inr r)
    show ?thesis
      using Cons.IH [OF r1, of "assign ss c r"] by (simp add: qa qb Inr)
  qed
qed

lemma results_validateSearchIndex:
  "results a = results b \<Longrightarrow>
   results (validateSearchIndex w cfg1 a) = results (validateSearchIndex w cfg2 b)"
  by (simp add: validateSearchIndex_def Let_def results_prims split: file_result.splits)

lemma results_generateReport [simp]:
  "results (generateReport cfg now ss st) = results st"
  by (simp add: results_def)

lemma results_banner [simp]: "results (banner w cfg st) = results st"
  by (simp add: results_def banner_def)

lemma results_main:
  "results (main w cfg1 now1) = results (main w cfg2 now2)"
  and reachesReport_mode: "reachesReport w cfg1 = reachesReport w cfg2"
proof -
  let ?a0 = "banner w cfg1 initial" and ?b0 = "banner w cfg2 initial"
  have r0: "results ?a0 = results ?b0" by simp
  obtain q a1 where va: "validateIndexFile w cfg1 ?a0 = (q, a1)"
    by (cases "validateIndexFile w cfg1 ?a0")
  obtain q' b1 where vb: "validateIndexFile w cfg2 ?b0 = (q', b1)"
    by (cases "validateIndexFile w cfg2 ?b0")
  have same: "q' = q" and r1: "results a1 = results b1"
    using results_validateIndexFile [OF r0, of w cfg1 cfg2] va vb by simp_all
  have both: "results (main w cfg1 now1) = results (main w cfg2 now2) \<and>
      reachesReport w cfg1 = reachesReport w cfg2"
  proof (cases q)
    case (Inl e)
    with va vb same r1 show ?thesis
      by (simp add: main_def main_body_def reachesReport_def results_def)
  next
    case (Inr r)
    show ?thesis
    proof (cases r)
      case None
      with va vb same r1 Inr show ?thesis
        by (simp add: main_def main_body_def reachesReport_def results_def)
    next
      case (Some index)
      let ?a2 = "log cfg1 (NL # ''--- Validating State Files ---'') a1"
      let ?b2 = "log cfg2 (NL # ''--- Validating State Files ---'') b1"
      have r2: "results ?a2 = results ?b2" using r1 by simp
      obtain l a3 where la: "validateStates w cfg1 (indexStates index) [] ?a2 = (l, a3)"
        by (cases "validateStates w cfg1 (indexStates index) [] ?a2")
      obtain l' b3 where lb: "validateStates w cfg2 (indexStates index) [] ?b2 = (l', b3)"
        by (cases "validateStates w cfg2 (indexStates index) [] ?b2")
      have same': "l' = l" and r3: "results a3 = results b3"
        using results_validateStates [OF r2, of w cfg1 "indexStates index" "[]" cfg2] la lb
        by simp_all
      show ?thesis
      proof (cases l)
        case (Inl e)
        with va vb same Inr Some la lb same' r3 show ?thesis
          by (simp add: main_def main_body_def reachesReport_def Let_def results_def)
      next
        case (Inr ss)
        with va vb same \<open>q = Inr r\<close> Some la lb same'
          results_validateSearchIndex [OF r3, of w cfg1 cfg2]
        show ?thesis
          by (simp add: main_def main_body_def reachesReport_def Let_def)
      qed
    qed
  qed
  then show "results (main w cfg1 now1) = results (main w cfg2 now2)"
    and "reachesReport w cfg1 = reachesReport w cfg2"
    by simp_all
qed

section \<open>The verdict of a run\<close>

lemma main_reaches_report:
  assumes "reachesReport w cfg"
  obtains index st1 stateStats st3 where
    "validateIndexFile w cfg (banner w cfg initial) = (Inr (Some index), st1)"
    "validateStates w cfg (indexStates index) []
       (log cfg (NL # ''--- Validating State Files ---'') st1) = (Inr stateStats, st3)"
    "main w cfg now = generateReport cfg now stateStats (validateSearchIndex w cfg st3)"
    "printsOnlyFindings cfg initial (validateSearchIndex w cfg st3)"
proof -
  obtain r st1 where v: "validateIndexFile w cfg (banner w cfg initial) = (r, st1)"
    by (cases "validateIndexFile w cfg (banner w cfg initial)")
  obtain index where r: "r = Inr (Some index)"
    using assms v by (auto simp: reachesReport_def split: sum.splits option.splits)
  let ?st2 = "log cfg (NL # ''--- Validating State Files ---'') st1"
  obtain q st3 where l: "validateStates w cfg (indexStates index) [] ?st2 = (q, st3)"
    by (cases "validateStates w cfg (indexStates index) [] ?st2")
  obtain stateStats where q: "q = Inr stateStats"
    using assms v r l by (auto simp: reachesReport_def split: sum.splits)
  have m: "main w cfg now = generateReport cfg now stateStats (validateSearchIndex w cfg st3)"
    using v r l q by (simp add: main_def main_body_def Let_def)
  have "printsOnlyFindings cfg initial st1"
    using pof_trans [OF pof_banner pof_validateIndexFile, of cfg initial w w] v by simp
  then have "printsOnlyFindings cfg initial ?st2"
    by (simp add: pof_intros)
  then have "printsOnlyFindings cfg initial st3"
    using pof_validateStates [of cfg initial ?st2 w "indexStates index" "[]"] l by simp
  then have "printsOnlyFindings cfg initial (validateSearchIndex w cfg st3)"
    by (rule pof_validateSearchIndex)
  with v r l q m show ?thesis using that by blast
qed

lemma generateReport_verdict:
  assumes "exitCode st = None" and "json cfg \<Longrightarrow> stdout st = []"
  shows "if json cfg
     then \<exists>r. stdout (generateReport cfg now stateStats st) = [Json r] \<and>
            r_status r = (if errors st > 0 then ''failed''
                          else if warnings st > 0 then ''passed_with_warnings''
                          else ''passed'') \<and>
            r_errors r = errors st \<and> r_warnings r = warnings st
     else \<exists>pre. stdout (generateReport cfg now stateStats st) =
            pre @ [Text (if errors st > 0
                         then BALLOT_X @ '' VERIFICATION FAILED''
                         else if warnings st > 0
                         then WARNING_SIGN @ '' VERIFICATION PASSED WITH WARNINGS''
                         else CHECK_MARK @ '' VERIFICATION PASSED''),
                   Text (''----------------------------------------'' @ [NL])]"
    and "exitStatus (generateReport cfg now stateStats st) = (if errors st > 0 then 1 else 0)"
proof -
  show "exitStatus (generateReport cfg now stateStats st) = (if errors st > 0 then 1 else 0)"
    using assms(1) by (simp add: exitStatus_def generateReport_exitCode)
  show "if json cfg
     then \<exists>r. stdout (generateReport cfg now stateStats st) = [Json r] \<and>
            r_status r = (if errors st > 0 then ''failed''
                          else if warnings st > 0 then ''passed_with_warnings''
                          else ''passed'') \<and>
            r_errors r = errors st \<and> r_warnings r = warnings st
     else \<exists>pre. stdout (generateReport cfg now stateStats st) =
            pre @ [Text (if errors st > 0
                         then BALLOT_X @ '' VERIFICATION FAILED''
                         else if warnings st > 0
                         then WARNING_SIGN @ '' VERIFICATION PASSED WITH WARNINGS''
                         else CHECK_MARK @ '' VERIFICATION PASSED''),
                   Text (''----------------------------------------'' @ [NL])]"
  proof (cases "json cfg")
    case True
    then show ?thesis
      using assms(2) by (simp add: generateReport_stdout_json split del: if_split)
  next
    case False
    then show ?thesis
      using generateReport_stdout_text [OF False, of now stateStats st]
      by (simp split del: if_split)
  qed
qed

lemma before_report:
  assumes "printsOnlyFindings cfg initial st"
  shows "exitCode st = None" and "json cfg \<Longrightarrow> stdout st = []"
  using assms by (auto simp: printsOnlyFindings_def initial_def)

section \<open>The findings of one region\<close>

lemma fold_warn_fields:
  "passed (fold (\<lambda>issue. warn cfg c (JStr issue)) iss st) = passed st"
  "warnings (fold (\<lambda>issue. warn cfg c (JStr issue)) iss st) = warnings st + length iss"
  "errors (fold (\<lambda>issue. warn cfg c (JStr issue)) iss st) = errors st"
  "details (fold (\<lambda>issue. warn cfg c (JStr issue)) iss st) =
     details st @ map (\<lambda>issue. \<lparr>d_type = Warning, d_check = c, d_details = JStr issue\<rparr>) iss"
  by (induction iss arbitrary: st; simp)+

lemma reportFindings_fields:
  "passed (reportFindings cfg c iss st) = passed st + (if iss = [] then 1 else 0)"
  "warnings (reportFindings cfg c iss st) =
     warnings st + min 5 (length iss) + (if length iss > 5 then 1 else 0)"
  "errors (reportFindings cfg c iss st) = errors st"
  "details (reportFindings cfg c iss st) =
     details st
     @ map (\<lambda>issue. \<lparr>d_type = Warning, d_check = c, d_details = JStr issue\<rparr>) (take 5 iss)
     @ (if length iss > 5
        then [\<lparr>d_type = Warning, d_check = c,
               d_details = JStr (''...and '' @ show_nat (length iss - 5) @ '' more issues'')\<rparr>]
        else [])"
  by (simp_all add: reportFindings_def Let_def fold_warn_fields min_def)

text \<open>
  The reporting policy of lines 166 to 176, for a region whose document parses and whose
  checks end with the issue list \<open>iss\<close>: the first five issues, in check order, are
  recorded verbatim as warnings; when there are more than five, exactly one further
  warning tells how many were left out; when there is none, exactly one pass is counted
  and no warning is recorded.
\<close>

lemma region_findings_policy:
  assumes "stateFile w stateCode = Parsed data"
    and "contentIssues stateCode data = Inr iss"
  shows "\<exists>st'. validateStateFile w cfg stateCode st =
           (Inr (Some \<lparr>issues = length iss,
                       hasReq = getProp data ''hasPublicWorksRequirement''\<rparr>), st') \<and>
         details st' =
           details st
           @ map (\<lambda>issue. \<lparr>d_type = Warning, d_check = stateCode, d_details = JStr issue\<rparr>)
               (take 5 iss)
           @ (if length iss > 5
              then [\<lparr>d_type = Warning, d_check = stateCode,
                     d_details = JStr (''...and '' @ show_nat (length iss - 5)
                                       @ '' more issues'')\<rparr>]
              else []) \<and>
         warnings st' = warnings st + min 5 (length iss) + (if length iss > 5 then 1 else 0) \<and>
         passed st' = passed st + (if iss = [] then 1 else 0) \<and>
         errors st' = errors st"
  using assms by (simp add: validateStateFile_def reportFindings_fields)

lemma poor_issues: "contentIssues ''CA'' poorDoc =
   Inr [''State code mismatch: undefined vs CA'', ''Missing stateName'',
        ''Invalid agencyType: undefined'', ''Missing or invalid hasPublicWorksRequirement'',
        ''Missing requirement.requirementType'', ''Missing requirement.ratioDescription'',
        ''Missing requirement.statute'', ''Missing requirement.statuteUrl'',
        ''Missing lastVerified date'']"
  by code_simp

lemma region_findings_policy_example:
  "stateFile (exampleWorld\<lparr>stateFile := (\<lambda>c. Parsed poorDoc)\<rparr>) ''CA'' = Parsed poorDoc \<and>
   (\<exists>iss. contentIssues ''CA'' poorDoc = Inr iss \<and> length iss = 9) \<and>
   (\<exists>st'. validateStateFile (exampleWorld\<lparr>stateFile := (\<lambda>c. Parsed poorDoc)\<rparr>) jsonMode ''CA''
            initial =
           (Inr (Some \<lparr>issues = 9, hasReq = Some (JStr ''yes'')\<rparr>), st') \<and>
         details st' =
           [\<lparr>d_type = Warning, d_check = ''CA'',
              d_details = JStr ''State code mismatch: undefined vs CA''\<rparr>,
            \<lparr>d_type = Warning, d_check = ''CA'', d_details = JStr ''Missing stateName''\<rparr>,
            \<lparr>d_type = Warning, d_check = ''CA'',
              d_details = JStr ''Invalid agencyType: undefined''\<rparr>,
            \<lparr>d_type = Warning, d_check = ''CA'',
              d_details = JStr ''Missing or invalid hasPublicWorksRequirement''\<rparr>,
            \<lparr>d_type = Warning, d_check = ''CA'',
              d_details = JStr ''Missing requirement.requirementType''\<rparr>,
            \<lparr>d_type = Warning, d_check = ''CA'', d_details = JStr ''...and 4 more issues''\<rparr>] \<and>
         warnings st' = 6 \<and> passed st' = 0 \<and> errors st' = 0)"
proof -
  let ?w = "exampleWorld\<lparr>stateFile := (\<lambda>c. Parsed poorDoc)\<rparr>"
  have f: "stateFile ?w ''CA'' = Parsed poorDoc" by simp
  have s4: "show_nat 4 = ''4''" by code_simp
  have p: "getProp poorDoc ''hasPublicWorksRequirement'' = Some (JStr ''yes'')"
    by (simp add: poorDoc_def)
  show ?thesis
    using region_findings_policy [OF f poor_issues, of jsonMode initial] poor_issues
    by (simp add: initial_def s4 p eval_nat_numeral)
qed

section \<open>The search index artifact\<close>

lemma validateSearchIndex_not_array:
  assumes "searchIndexFile w = Parsed v" and "\<not> isArray v"
  shows "errors (validateSearchIndex w cfg st) = errors st + 1"
    and "warnings (validateSearchIndex w cfg st) = warnings st"
    and "details (validateSearchIndex w cfg st) =
           details st @ [\<lparr>d_type = Error, d_check = ''search-index.json is an array'',
                          d_details = JStr []\<rparr>]"
  using assms by (simp_all add: validateSearchIndex_def Let_def)

lemma validateSearchIndex_missing:
  assumes "searchIndexFile w = Missing"
  shows "errors (validateSearchIndex w cfg st) = errors st"
    and "warnings (validateSearchIndex w cfg st) = warnings st + 1"
    and "details (validateSearchIndex w cfg st) =
           details st @ [\<lparr>d_type = Warning, d_check = ''search-index.json exists'',
                          d_details = JStr ''Run build-search-index.js to generate''\<rparr>]"
  using assms by (simp_all add: validateSearchIndex_def Let_def)

lemma validateSearchIndex_array:
  assumes "searchIndexFile w = Parsed (JArr xs)"
  shows "errors (validateSearchIndex w cfg st) = errors st"
    and "warnings (validateSearchIndex w cfg st) = warnings st"
    and "details (validateSearchIndex w cfg st) = details st"
  using assms by (simp_all add: validateSearchIndex_def Let_def)

section \<open>The index validator: the states field and the coverage\<close>

lemma object_like:
  "truthy v \<and> typeof v = ''object'' \<longleftrightarrow>
     (\<exists>kvs. v = Some (JObj kvs)) \<or> (\<exists>xs. v = Some (JArr xs))"
proof (cases v)
  case None
  then show ?thesis by simp
next
  case (Some x)
  then show ?thesis by (cases x) simp_all
qed

lemma checkLastUpdated_cases:
  obtains (throws) "dateConversionThrows index" "checkLastUpdated w cfg index st = Inl TypeError"
  | (returns) st' ds where "\<not> dateConversionThrows index"
      "checkLastUpdated w cfg index st = Inr st'"
      "warnings st' = warnings st" "errors st' = errors st + length ds"
      "details st' = details st @ ds"
      "\<forall>d \<in> set ds. d_type d = Error \<and> d_check d \<noteq> ''index.json has states object''"
      "printsOnlyFindings cfg st st'"
proof (cases "checkLastUpdated w cfg index st")
  case (Inl e)
  then have "dateConversionThrows index"
    by (auto simp: checkLastUpdated_def dateConversionThrows_def split: option.splits if_splits)
  with Inl throws show ?thesis by (cases e) simp
next
  case (Inr st')
  then have n: "\<not> dateConversionThrows index"
    by (auto simp: checkLastUpdated_def dateConversionThrows_def split: option.splits if_splits)
  from Inr have "\<exists>ds. warnings st' = warnings st \<and> errors st' = errors st + length ds \<and>
      details st' = details st @ ds \<and>
      (\<forall>d \<in> set ds. d_type d = Error \<and> d_check d \<noteq> ''index.json has states object'')"
    by (auto simp: checkLastUpdated_def split: option.splits if_splits)
  with n Inr pof_checkLastUpdated [OF Inr] returns show ?thesis by blast
qed

lemma validateIndexFile_parsed:
  assumes "indexFile w = Parsed index" and "index \<noteq> JNull"
    and "\<not> dateConversionThrows index"
  obtains st3 ds where
    "warnings st3 = warnings st" "errors st3 = errors st + length ds"
    "details st3 = details st @ ds"
    "\<forall>d \<in> set ds. d_type d = Error \<and> d_check d \<noteq> ''index.json has states object''"
    "validateIndexFile w cfg st =
       (if truthy (getProp index ''states'') \<and> typeof (getProp index ''states'') = ''object''
        then (Inr (Some index),
              checkCoverage cfg index (pass cfg ''index.json has states object'' st3))
        else (Inr None, fail cfg ''index.json has states object'' (JStr []) st3))"
proof -
  let ?st2 = "pass cfg ''index.json is valid JSON''
      (pass cfg ''index.json exists'' (log cfg (NL # ''--- Validating index.json ---'') st))"
  show ?thesis
  proof (cases rule: checkLastUpdated_cases [of index w cfg ?st2])
    case throws
    with assms(3) show ?thesis by simp
  next
    case (returns st3 ds)
    have "validateIndexFile w cfg st =
       (if truthy (getProp index ''states'') \<and> typeof (getProp index ''states'') = ''object''
        then (Inr (Some index),
              checkCoverage cfg index (pass cfg ''index.json has states object'' st3))
        else (Inr None, fail cfg ''index.json has states object'' (JStr []) st3))"
      using assms(1,2) returns(2) by (simp add: validateIndexFile_def Let_def)
    moreover have "warnings st3 = warnings st" "errors st3 = errors st + length ds"
      "details st3 = details st @ ds"
      using returns(3,4,5) by simp_all
    ultimately show ?thesis using that returns(6) by blast
  qed
qed

lemma validateIndexFile_throws:
  assumes "indexFile w = Parsed index" and "index = JNull \<or> dateConversionThrows index"
  shows "fst (validateIndexFile w cfg st) = Inl TypeError"
proof (cases "index = JNull")
  case True
  with assms(1) show ?thesis by (simp add: validateIndexFile_def Let_def)
next
  case False
  let ?st2 = "pass cfg ''index.json is valid JSON''
      (pass cfg ''index.json exists'' (log cfg (NL # ''--- Validating index.json ---'') st))"
  from False assms(2) have "dateConversionThrows index" by simp
  then have "checkLastUpdated w cfg index ?st2 = Inl TypeError"
    by (cases rule: checkLastUpdated_cases [of index w cfg ?st2]) simp_all
  with assms(1) False show ?thesis by (simp add: validateIndexFile_def Let_def)
qed

lemma checkCoverage_fields:
  "errors (checkCoverage cfg index st) = errors st"
  "warnings (checkCoverage cfg index st) = warnings st + (if missingStates index = [] then 0 else 1)"
  "details (checkCoverage cfg index st) =
     details st @ (if missingStates index = [] then []
                   else [\<lparr>d_type = Warning, d_check = ''All expected states present'',
                          d_details = JStr (''Missing: '' @ join '', '' (missingStates index))\<rparr>])"
  by (simp_all add: checkCoverage_def)

text \<open>
  Claim C4, as the code has it. For a parsed index document other than \<^verbatim>\<open>null\<close> whose
  date conversion does not throw: when \<^verbatim>\<open>states\<close> is absent, \<^verbatim>\<open>null\<close>, a boolean, a
  number or a string, the validator records the error \<^verbatim>\<open>index.json has states object\<close>
  last and returns \<^verbatim>\<open>null\<close>; when \<^verbatim>\<open>states\<close> is an object or an array (both have the
  type \<^verbatim>\<open>object\<close>), it returns the index and does not record that error.
\<close>

theorem index_states_guard:
  assumes "indexFile w = Parsed index" and "index \<noteq> JNull"
    and "\<not> dateConversionThrows index"
  shows "if (\<exists>kvs. getProp index ''states'' = Some (JObj kvs))
            \<or> (\<exists>xs. getProp index ''states'' = Some (JArr xs))
         then fst (validateIndexFile w cfg st) = Inr (Some index) \<and>
              \<lparr>d_type = Error, d_check = ''index.json has states object'', d_details = JStr []\<rparr>
                \<notin> set (drop (length (details st)) (details (snd (validateIndexFile w cfg st))))
         else fst (validateIndexFile w cfg st) = Inr None \<and>
              errors (snd (validateIndexFile w cfg st)) > errors st \<and>
              last (details (snd (validateIndexFile w cfg st))) =
                \<lparr>d_type = Error, d_check = ''index.json has states object'', d_details = JStr []\<rparr>"
proof -
  obtain st3 ds where
    f: "warnings st3 = warnings st" "errors st3 = errors st + length ds"
      "details st3 = details st @ ds"
      "\<forall>d \<in> set ds. d_type d = Error \<and> d_check d \<noteq> ''index.json has states object''"
    and v: "validateIndexFile w cfg st =
       (if truthy (getProp index ''states'') \<and> typeof (getProp index ''states'') = ''object''
        then (Inr (Some index),
              checkCoverage cfg index (pass cfg ''index.json has states object'' st3))
        else (Inr None, fail cfg ''index.json has states object'' (JStr []) st3))"
    by (rule validateIndexFile_parsed [OF assms, of st cfg])
  show ?thesis
  proof (cases "truthy (getProp index ''states'') \<and> typeof (getProp index ''states'') = ''object''")
    case True
    then have o: "(\<exists>kvs. getProp index ''states'' = Some (JObj kvs))
            \<or> (\<exists>xs. getProp index ''states'' = Some (JArr xs))"
      using object_like [of "getProp index ''states''"] by blast
    have "\<lparr>d_type = Error, d_check = ''index.json has states object'', d_details = JStr []\<rparr>
        \<notin> set (ds @ (if missingStates index = [] then []
                   else [\<lparr>d_type = Warning, d_check = ''All expected states present'',
                          d_details = JStr (''Missing: '' @ join '', '' (missingStates index))\<rparr>]))"
      using f(4) by auto
    with True o show ?thesis
      by (simp add: v checkCoverage_fields f(3) split del: if_split)
  next
    case False
    then have o: "\<not> ((\<exists>kvs. getProp index ''states'' = Some (JObj kvs))
            \<or> (\<exists>xs. getProp index ''states'' = Some (JArr xs)))"
      using object_like [of "getProp index ''states''"] by blast
    from False have v': "validateIndexFile w cfg st
        = (Inr None, fail cfg ''index.json has states object'' (JStr []) st3)"
      unfolding v by (rule if_not_P)
    show ?thesis
      using o by (simp add: v' f(2))
  qed
qed

lemma assign_proto [simp]: "assign ss ''__proto__'' v = ss"
  by (cases ss) auto

lemma map_of_assign:
  "k \<noteq> ''__proto__'' \<Longrightarrow> map_of (assign ss k v) = (map_of ss)(k \<mapsto> v)"
  by (induction ss) auto

lemma validateStateFile_result:
  "fst (validateStateFile w cfg c st) =
     (case stateFile w c of
        Missing \<Rightarrow> Inr None
      | ParseError m \<Rightarrow> Inr None
      | Parsed data \<Rightarrow>
          (case contentIssues c data of
             Inl e \<Rightarrow> Inl e
           | Inr iss \<Rightarrow> Inr (Some \<lparr>issues = length iss,
                                    hasReq = getProp data ''hasPublicWorksRequirement''\<rparr>)))"
  by (simp add: validateStateFile_def split: file_result.splits sum.splits)

lemma validateStates_entries:
  assumes "validateStates w cfg cs ss st = (Inr ss', st')"
  shows "map_of ss' k =
     (if k \<in> set cs \<and> k \<noteq> ''__proto__''
      then (case fst (validateStateFile w cfg k initial) of Inr r \<Rightarrow> Some r | Inl e \<Rightarrow> None)
      else map_of ss k)"
  using assms
proof (induction cs arbitrary: ss st)
  case Nil
  then show ?case by simp
next
  case (Cons c cs)
  obtain q st1 where q: "validateStateFile w cfg c st = (q, st1)"
    by (cases "validateStateFile w cfg c st")
  with Cons.prems obtain r where r: "q = Inr r"
    by (cases q) simp_all
  have res: "fst (validateStateFile w cfg c initial) = Inr r"
    using q r validateStateFile_result [of w cfg c st] validateStateFile_result [of w cfg c initial]
    by simp
  from Cons.prems q r have "validateStates w cfg cs (assign ss c r) st1 = (Inr ss', st')"
    by simp
  from Cons.IH [OF this] res show ?case
    by (cases "c = ''__proto__''") (auto simp: map_of_assign)
qed

lemma filter_warning_errors:
  "\<forall>d \<in> set ds. d_type d = Error \<and> P d \<Longrightarrow> filter (\<lambda>d. d_type d = Warning) ds = []"
  by (induction ds) auto

lemma validateStates_no_throw:
  assumes "validateStates w cfg cs ss st = (Inr ss', st')" and "k \<in> set cs"
  shows "\<exists>r. fst (validateStateFile w cfg k initial) = Inr r"
  using assms
proof (induction cs arbitrary: ss st)
  case Nil
  then show ?case by simp
next
  case (Cons c cs)
  obtain q st1 where q: "validateStateFile w cfg c st = (q, st1)"
    by (cases "validateStateFile w cfg c st")
  with Cons.prems(1) obtain r where r: "q = Inr r"
    by (cases q) simp_all
  show ?case
  proof (cases "k = c")
    case True
    have "fst (validateStateFile w cfg k initial) = fst (validateStateFile w cfg k st)"
      by (simp only: validateStateFile_result)
    with True q r show ?thesis by simp
  next
    case False
    with Cons.prems(2) have "k \<in> set cs" by simp
    moreover from Cons.prems(1) q r
    have "validateStates w cfg cs (assign ss c r) st1 = (Inr ss', st')"
      by simp
    ultimately show ?thesis
      using Cons.IH by blast
  qed
qed

lemma validateStates_stores:
  assumes "validateStates w cfg cs ss st = (Inr ss', st')"
    and "k \<in> set cs" and "k \<noteq> ''__proto__''"
  shows "\<exists>r. fst (validateStateFile w cfg k initial) = Inr r \<and> map_of ss' k = Some r"
proof -
  from validateStates_no_throw [OF assms(1,2)] obtain r
    where r: "fst (validateStateFile w cfg k initial) = Inr r" ..
  with validateStates_entries [OF assms(1), of k] assms(2,3) show ?thesis by simp
qed

text \<open>
  The coverage check, for a parsed index other than \<^verbatim>\<open>null\<close> whose date conversion does
  not throw and whose \<^verbatim>\<open>states\<close> is a mapping: the missing codes are the
  expected codes that are no key of the mapping, in the order of the reference list (keys
  outside the list play no part); when at least one is missing, exactly one warning is
  recorded by the index validator, with the text \<^verbatim>\<open>Missing: \<close> followed by these codes
  joined by commas, and none otherwise; the validator returns the index, \<^verbatim>\<open>main\<close> goes on
  to the loop over all keys of the mapping, and a loop that ends without a throw has
  stored the result of the region validator for every key.
\<close>

lemma coverage_warning:
  assumes "indexFile w = Parsed index" and "index \<noteq> JNull"
    and "\<not> dateConversionThrows index"
    and "getProp index ''states'' = Some (JObj kvs)"
  shows "missingStates index = filter (\<lambda>s. s \<notin> fst ` set kvs) EXPECTED_STATES \<and>
    fst (validateIndexFile w cfg st) = Inr (Some index) \<and>
    warnings (snd (validateIndexFile w cfg st))
      = warnings st + (if missingStates index = [] then 0 else 1) \<and>
    filter (\<lambda>d. d_type d = Warning)
        (drop (length (details st)) (details (snd (validateIndexFile w cfg st))))
      = (if missingStates index = [] then []
         else [\<lparr>d_type = Warning, d_check = ''All expected states present'',
                d_details = JStr (''Missing: '' @ join '', '' (missingStates index))\<rparr>]) \<and>
    main_body w cfg now initial =
      (case validateStates w cfg (map fst kvs) []
              (log cfg (NL # ''--- Validating State Files ---'')
                 (snd (validateIndexFile w cfg (banner w cfg initial)))) of
         (Inl e, st3) \<Rightarrow> (Inl e, st3)
       | (Inr stateStats, st3) \<Rightarrow>
           (Inr (), generateReport cfg now stateStats (validateSearchIndex w cfg st3))) \<and>
    (\<forall>ss st2 st3. validateStates w cfg (map fst kvs) [] st2 = (Inr ss, st3) \<longrightarrow>
       (\<forall>k \<in> fst ` set kvs. k \<noteq> ''__proto__'' \<longrightarrow>
          (\<exists>r. fst (validateStateFile w cfg k initial) = Inr r \<and> map_of ss k = Some r)))"
proof -
  have miss: "missingStates index = filter (\<lambda>s. s \<notin> fst ` set kvs) EXPECTED_STATES"
    using assms(4) by (simp add: missingStates_def indexStates_def)
  have keys: "indexStates index = map fst kvs"
    using assms(4) by (simp add: indexStates_def)
  have res: "fst (validateIndexFile w cfg st') = Inr (Some index) \<and>
      warnings (snd (validateIndexFile w cfg st'))
        = warnings st' + (if missingStates index = [] then 0 else 1) \<and>
      filter (\<lambda>d. d_type d = Warning)
          (drop (length (details st')) (details (snd (validateIndexFile w cfg st'))))
        = (if missingStates index = [] then []
           else [\<lparr>d_type = Warning, d_check = ''All expected states present'',
                  d_details = JStr (''Missing: '' @ join '', '' (missingStates index))\<rparr>])"
    for st'
  proof -
    obtain st3 ds where
      f: "warnings st3 = warnings st'" "errors st3 = errors st' + length ds"
        "details st3 = details st' @ ds"
        "\<forall>d \<in> set ds. d_type d = Error \<and> d_check d \<noteq> ''index.json has states object''"
      and v: "validateIndexFile w cfg st' =
         (if truthy (getProp index ''states'') \<and> typeof (getProp index ''states'') = ''object''
          then (Inr (Some index),
                checkCoverage cfg index (pass cfg ''index.json has states object'' st3))
          else (Inr None, fail cfg ''index.json has states object'' (JStr []) st3))"
      by (rule validateIndexFile_parsed [OF assms(1,2,3), of st' cfg])
    have v': "validateIndexFile w cfg st' =
        (Inr (Some index), checkCoverage cfg index (pass cfg ''index.json has states object'' st3))"
      unfolding v using assms(4) by simp
    show ?thesis
      using filter_warning_errors [OF f(4)]
      by (simp add: v' checkCoverage_fields f(1,3))
  qed
  have body: "main_body w cfg now initial =
      (case validateStates w cfg (map fst kvs) []
              (log cfg (NL # ''--- Validating State Files ---'')
                 (snd (validateIndexFile w cfg (banner w cfg initial)))) of
         (Inl e, st3) \<Rightarrow> (Inl e, st3)
       | (Inr stateStats, st3) \<Rightarrow>
           (Inr (), generateReport cfg now stateStats (validateSearchIndex w cfg st3)))"
  proof -
    obtain q st1 where q: "validateIndexFile w cfg (banner w cfg initial) = (q, st1)"
      by (cases "validateIndexFile w cfg (banner w cfg initial)")
    with res [of "banner w cfg initial"] have "q = Inr (Some index)" by simp
    with q show ?thesis by (simp add: main_body_def keys Let_def)
  qed
  have loop: "\<forall>ss st2 st3. validateStates w cfg (map fst kvs) [] st2 = (Inr ss, st3) \<longrightarrow>
       (\<forall>k \<in> fst ` set kvs. k \<noteq> ''__proto__'' \<longrightarrow>
          (\<exists>r. fst (validateStateFile w cfg k initial) = Inr r \<and> map_of ss k = Some r))"
  proof (intro allI impI ballI)
    fix ss st2 st3 k
    assume run: "validateStates w cfg (map fst kvs) [] st2 = (Inr ss, st3)"
      and k: "k \<in> fst ` set kvs" "k \<noteq> ''__proto__''"
    from k(1) have "k \<in> set (map fst kvs)" by simp
    from validateStates_stores [OF run this k(2)]
    show "\<exists>r. fst (validateStateFile w cfg k initial) = Inr r \<and> map_of ss k = Some r" .
  qed
  note r = res [of st]
  show ?thesis
    by (rule conjI [OF miss conjI [OF conjunct1 [OF r] conjI [OF conjunct1 [OF conjunct2 [OF r]]
          conjI [OF conjunct2 [OF conjunct2 [OF r]] conjI [OF body loop]]]]])
qed

theorem index_states_guard_witness:
  "indexFile (exampleWorld\<lparr>indexFile := Parsed stringStatesIndex\<rparr>) = Parsed stringStatesIndex \<and>
   stringStatesIndex \<noteq> JNull \<and> \<not> dateConversionThrows stringStatesIndex \<and>
   fst (validateIndexFile (exampleWorld\<lparr>indexFile := Parsed stringStatesIndex\<rparr>) jsonMode initial)
     = Inr None \<and>
   errors (snd (validateIndexFile (exampleWorld\<lparr>indexFile := Parsed stringStatesIndex\<rparr>)
                  jsonMode initial)) > 0 \<and>
   last (details (snd (validateIndexFile (exampleWorld\<lparr>indexFile := Parsed stringStatesIndex\<rparr>)
                         jsonMode initial))) =
     \<lparr>d_type = Error, d_check = ''index.json has states object'', d_details = JStr []\<rparr>"
proof -
  let ?w = "exampleWorld\<lparr>indexFile := Parsed stringStatesIndex\<rparr>"
  have f: "indexFile ?w = Parsed stringStatesIndex" by simp
  have n: "stringStatesIndex \<noteq> JNull" by (simp add: stringStatesIndex_def)
  have d: "\<not> dateConversionThrows stringStatesIndex"
    by (simp add: dateConversionThrows_def stringStatesIndex_def)
  have s: "getProp stringStatesIndex ''states'' = Some (JStr ''CA'')"
    by (simp add: stringStatesIndex_def)
  show ?thesis
    using index_states_guard [OF f n d, of jsonMode initial] n d
    by (simp add: s initial_def)
qed

text \<open>
  Claim C4 as written includes arrays among the rejected values: an index whose
  \<^verbatim>\<open>states\<close> is the empty array is returned, and no error is recorded.
\<close>

theorem index_states_array_counterexample:
  "getProp arrayIndex ''states'' = Some (JArr []) \<and>
   fst (validateIndexFile (exampleWorld\<lparr>indexFile := Parsed arrayIndex\<rparr>) jsonMode initial)
     = Inr (Some arrayIndex) \<and>
   errors (snd (validateIndexFile (exampleWorld\<lparr>indexFile := Parsed arrayIndex\<rparr>)
                  jsonMode initial)) = 0"
  by code_simp

lemma small_missing:
  "missingStates smallIndex =
    [''AL'', ''AK'', ''AZ'', ''AR'', ''CO'', ''CT'', ''DE'', ''DC'', ''FL'',
     ''GA'', ''HI'', ''ID'', ''IL'', ''IN'', ''IA'', ''KS'', ''KY'', ''LA'', ''ME'',
     ''MD'', ''MA'', ''MI'', ''MN'', ''MS'', ''MO'', ''MT'', ''NE'', ''NV'', ''NH'',
     ''NJ'', ''NM'', ''NY'', ''NC'', ''ND'', ''OH'', ''OK'', ''OR'', ''PA'',
     ''RI'', ''SC'', ''SD'', ''TN'', ''TX'', ''UT'', ''VT'', ''VA'', ''WA'',
     ''WV'', ''WI'', ''WY'']"
  by code_simp

lemma small_missing_text:
  "''Missing: '' @ join '', '' (missingStates smallIndex) =
   ''Missing: AL, AK, AZ, AR, CO, CT, DE, DC, FL, GA, HI, ID, IL, IN, IA, KS, KY, LA, ME, MD, MA, MI, MN, MS, MO, MT, NE, NV, NH, NJ, NM, NY, NC, ND, OH, OK, OR, PA, RI, SC, SD, TN, TX, UT, VT, VA, WA, WV, WI, WY''"
  by code_simp

lemma coverage_warning_example:
  "indexFile smallWorld = Parsed smallIndex \<and> smallIndex \<noteq> JNull \<and>
   \<not> dateConversionThrows smallIndex \<and>
   getProp smallIndex ''states'' = Some (JObj [(''CA'', JObj [])]) \<and>
   length (missingStates smallIndex) = 50 \<and>
   fst (validateIndexFile smallWorld jsonMode initial) = Inr (Some smallIndex) \<and>
   warnings (snd (validateIndexFile smallWorld jsonMode initial)) = 1 \<and>
   filter (\<lambda>d. d_type d = Warning) (details (snd (validateIndexFile smallWorld jsonMode initial)))
     = [\<lparr>d_type = Warning, d_check = ''All expected states present'',
         d_details = JStr ''Missing: AL, AK, AZ, AR, CO, CT, DE, DC, FL, GA, HI, ID, IL, IN, IA, KS, KY, LA, ME, MD, MA, MI, MN, MS, MO, MT, NE, NV, NH, NJ, NM, NY, NC, ND, OH, OK, OR, PA, RI, SC, SD, TN, TX, UT, VT, VA, WA, WV, WI, WY''\<rparr>]"
proof -
  have f: "indexFile smallWorld = Parsed smallIndex"
    by (simp add: smallWorld_def)
  have n: "smallIndex \<noteq> JNull" by (simp add: smallIndex_def)
  have d: "\<not> dateConversionThrows smallIndex"
    by (simp add: dateConversionThrows_def smallIndex_def)
  have s: "getProp smallIndex ''states'' = Some (JObj [(''CA'', JObj [])])"
    by (simp add: smallIndex_def)
  have ne: "missingStates smallIndex \<noteq> []" and len: "length (missingStates smallIndex) = 50"
    by (simp_all add: small_missing)
  note t = coverage_warning [OF f n d s, of jsonMode initial]
  have r: "fst (validateIndexFile smallWorld jsonMode initial) = Inr (Some smallIndex)"
    using t by (rule conjunct1 [OF conjunct2])
  have w: "warnings (snd (validateIndexFile smallWorld jsonMode initial)) = 1"
    using conjunct1 [OF conjunct2 [OF conjunct2 [OF t]]] ne by (simp add: initial_def)
  note t4 = conjunct1 [OF conjunct2 [OF conjunct2 [OF conjunct2 [OF t]]], unfolded small_missing_text]
  have fl: "filter (\<lambda>d. d_type d = Warning)
      (details (snd (validateIndexFile smallWorld jsonMode initial)))
     = [\<lparr>d_type = Warning, d_check = ''All expected states present'',
         d_details = JStr ''Missing: AL, AK, AZ, AR, CO, CT, DE, DC, FL, GA, HI, ID, IL, IN, IA, KS, KY, LA, ME, MD, MA, MI, MN, MS, MO, MT, NE, NV, NH, NJ, NM, NY, NC, ND, OH, OK, OR, PA, RI, SC, SD, TN, TX, UT, VT, VA, WA, WV, WI, WY''\<rparr>]"
    using t4 ne by (simp add: initial_def)
  show ?thesis
    by (rule conjI [OF f conjI [OF n conjI [OF d conjI [OF s conjI [OF len conjI [OF r
          conjI [OF w fl]]]]]]])
qed

section \<open>The content checks of a region document\<close>

lemma aboutStatuteUrl_aboutRequirement: "aboutStatuteUrl i \<Longrightarrow> aboutRequirement i"
  by (auto simp: aboutStatuteUrl_def aboutRequirement_def startsWith_def)

lemma checkState_not_about:
  "checkState c data = Inr i1 \<Longrightarrow> filter aboutRequirement i1 = []"
  by (auto simp: checkState_def aboutRequirement_def startsWith_def split: if_splits option.splits)

lemma checkAgencyType_not_about:
  "checkAgencyType data = Inr i3 \<Longrightarrow> filter aboutRequirement i3 = []"
  by (auto simp: checkAgencyType_def aboutRequirement_def startsWith_def
      split: if_splits option.splits)

lemma plain_checks_not_about:
  "filter aboutRequirement (checkStateName data) = []"
  "filter aboutRequirement (checkHasRequirement data) = []"
  "filter aboutRequirement (checkNoRequirement data) = []"
  "filter aboutRequirement (checkLastVerified data) = []"
  by (simp_all add: checkStateName_def checkHasRequirement_def checkNoRequirement_def
      checkLastVerified_def aboutRequirement_def startsWith_def)

lemma contentIssues_about:
  assumes "contentIssues c data = Inr iss"
  obtains i5 where "checkRequirement data = Inr i5" "filter aboutRequirement iss = filter aboutRequirement i5"
proof -
  from assms obtain i1 i3 i5 where
    s: "checkState c data = Inr i1" "checkAgencyType data = Inr i3" "checkRequirement data = Inr i5"
    and iss: "iss = i1 @ checkStateName data @ i3 @ checkHasRequirement data @ i5
               @ checkNoRequirement data @ checkLastVerified data"
    by (auto simp: contentIssues_def split: if_splits sum.splits)
  have "filter aboutRequirement iss = filter aboutRequirement i5"
    unfolding iss
    by (simp add: checkState_not_about [OF s(1)] checkAgencyType_not_about [OF s(2)]
        plain_checks_not_about)
  with s(3) that show ?thesis by blast
qed

lemma contentIssues_returns:
  assumes "data \<noteq> JNull" and "toStrU (getProp data ''state'') \<noteq> None"
    and "toStrU (getProp data ''agencyType'') \<noteq> None"
    and "checkRequirement data = Inr i5"
  obtains i1 i3 where "checkState c data = Inr i1" "length i1 \<le> 1"
    "checkAgencyType data = Inr i3" "length i3 \<le> 1"
    "contentIssues c data =
       Inr (i1 @ checkStateName data @ i3 @ checkHasRequirement data @ i5
            @ checkNoRequirement data @ checkLastVerified data)"
proof -
  have "\<exists>i1. checkState c data = Inr i1 \<and> length i1 \<le> 1"
    using assms(2) by (cases "toStrU (getProp data ''state'')") (simp_all add: checkState_def)
  then obtain i1 where i1: "checkState c data = Inr i1" "length i1 \<le> 1"
    by blast
  have "\<exists>i3. checkAgencyType data = Inr i3 \<and> length i3 \<le> 1"
    using assms(3)
    by (cases "toStrU (getProp data ''agencyType'')") (simp_all add: checkAgencyType_def)
  then obtain i3 where i3: "checkAgencyType data = Inr i3" "length i3 \<le> 1"
    by blast
  have "contentIssues c data =
       Inr (i1 @ checkStateName data @ i3 @ checkHasRequirement data @ i5
            @ checkNoRequirement data @ checkLastVerified data)"
    using assms(1,4) i1(1) i3(1) by (simp add: contentIssues_def)
  with i1 i3 that show ?thesis by blast
qed

lemma checkStatuteUrl_string:
  "getProp req ''statuteUrl'' = Some (JStr url) \<Longrightarrow>
   checkStatuteUrl req =
     Inr (if url = [] then [''Missing requirement.statuteUrl'']
          else if \<not> startsWith url ''http'' then [''Invalid statute URL: '' @ url] else [])"
  by (simp add: checkStatuteUrl_def)

lemma checkStatuteUrl_falsy:
  "\<not> truthy (getProp req ''statuteUrl'') \<Longrightarrow>
   checkStatuteUrl req = Inr [''Missing requirement.statuteUrl'']"
  by (simp add: checkStatuteUrl_def)

lemma checkRequirement_present:
  assumes "truthy (getProp data ''hasPublicWorksRequirement'')"
    and "getProp data ''requirement'' = Some req" and "truthy (Some req)"
    and "checkStatuteUrl req = Inr urlIssues"
  shows "checkRequirement data =
     Inr ((if \<not> truthy (getProp req ''requirementType'')
           then [''Missing requirement.requirementType''] else [])
        @ (if \<not> truthy (getProp req ''ratioDescription'')
           then [''Missing requirement.ratioDescription''] else [])
        @ (if \<not> truthy (getProp req ''statute'')
           then [''Missing requirement.statute''] else [])
        @ urlIssues)"
  using assms by (simp add: checkRequirement_def)

lemma about_member:
  "aboutRequirement x \<Longrightarrow> x \<in> set xs \<longleftrightarrow> x \<in> set (filter aboutRequirement xs)"
  by simp

lemma filter_about_url:
  "filter aboutStatuteUrl xs = filter aboutStatuteUrl (filter aboutRequirement xs)"
  by (induction xs) (auto dest: aboutStatuteUrl_aboutRequirement)

lemma checkState_prefix:
  "checkState c data = Inr i1 \<Longrightarrow> x \<in> set i1 \<Longrightarrow> startsWith x ''State code mismatch: ''"
  by (auto simp: checkState_def startsWith_def split: if_splits option.splits)

lemma checkAgencyType_prefix:
  "checkAgencyType data = Inr i3 \<Longrightarrow> x \<in> set i3 \<Longrightarrow> startsWith x ''Invalid agencyType: ''"
  by (auto simp: checkAgencyType_def startsWith_def split: if_splits option.splits)

lemma checkStatuteUrl_about:
  "checkStatuteUrl req = Inr us \<Longrightarrow> x \<in> set us \<Longrightarrow> aboutStatuteUrl x"
  by (auto simp: checkStatuteUrl_def aboutStatuteUrl_def startsWith_def Let_def
      split: if_splits option.splits jvalue.splits)

lemma take_prefix_member:
  "length pre < n \<Longrightarrow> x \<in> set (take n (pre @ x # rest))"
  by (simp add: take_Cons')

lemma member_about:
  assumes "aboutRequirement x" and "filter aboutRequirement xs = filter aboutRequirement ys"
  shows "x \<in> set xs \<longleftrightarrow> x \<in> set ys"
proof -
  have "x \<in> set xs \<longleftrightarrow> x \<in> set (filter aboutRequirement xs)"
    using assms(1) by simp
  also have "\<dots> \<longleftrightarrow> x \<in> set (filter aboutRequirement ys)"
    by (simp only: assms(2))
  also have "\<dots> \<longleftrightarrow> x \<in> set ys"
    using assms(1) by simp
  finally show ?thesis .
qed

text \<open>
  The requirement checks are gated on truthiness. For a region document whose
  \<^verbatim>\<open>hasPublicWorksRequirement\<close> is truthy and not a boolean and whose requirement object
  is present (the statute URL being falsy or a
  string, the state and agency fields having a string conversion): the issue list has
  \<^verbatim>\<open>Missing or invalid hasPublicWorksRequirement\<close> among its first four entries, and the
  four sub-field checks and the URL check have run: each missing-field issue is present
  exactly when that field is falsy, the invalid-URL issue exactly when the URL is a
  non-empty string that does not start with \<^verbatim>\<open>http\<close>; the no-requirement-object issue
  is absent.
\<close>

lemma truthy_non_boolean_requirement:
  assumes "truthy (getProp data ''hasPublicWorksRequirement'')"
    and "typeof (getProp data ''hasPublicWorksRequirement'') \<noteq> ''boolean''"
    and "getProp data ''requirement'' = Some (JObj rkvs)"
    and "\<not> truthy (map_of rkvs ''statuteUrl'') \<or> (\<exists>url. map_of rkvs ''statuteUrl'' = Some (JStr url))"
    and "toStrU (getProp data ''state'') \<noteq> None"
    and "toStrU (getProp data ''agencyType'') \<noteq> None"
  shows "\<exists>iss. contentIssues stateCode data = Inr iss \<and>
     ''Missing or invalid hasPublicWorksRequirement'' \<in> set (take 4 iss) \<and>
     (''Missing requirement.requirementType'' \<in> set iss
        \<longleftrightarrow> \<not> truthy (map_of rkvs ''requirementType'')) \<and>
     (''Missing requirement.ratioDescription'' \<in> set iss
        \<longleftrightarrow> \<not> truthy (map_of rkvs ''ratioDescription'')) \<and>
     (''Missing requirement.statute'' \<in> set iss \<longleftrightarrow> \<not> truthy (map_of rkvs ''statute'')) \<and>
     (''Missing requirement.statuteUrl'' \<in> set iss
        \<longleftrightarrow> \<not> truthy (map_of rkvs ''statuteUrl'')) \<and>
     (\<forall>url. map_of rkvs ''statuteUrl'' = Some (JStr url) \<longrightarrow>
        (''Invalid statute URL: '' @ url \<in> set iss \<longleftrightarrow> url \<noteq> [] \<and> \<not> startsWith url ''http'')) \<and>
     ''hasPublicWorksRequirement is true but no requirement object'' \<notin> set iss"
proof -
  have "\<exists>us. checkStatuteUrl (JObj rkvs) = Inr us \<and>
      (''Missing requirement.statuteUrl'' \<in> set us \<longleftrightarrow> \<not> truthy (map_of rkvs ''statuteUrl'')) \<and>
      (\<forall>url. map_of rkvs ''statuteUrl'' = Some (JStr url) \<longrightarrow>
        (''Invalid statute URL: '' @ url \<in> set us \<longleftrightarrow> url \<noteq> [] \<and> \<not> startsWith url ''http'')) \<and>
      ''Missing requirement.requirementType'' \<notin> set us \<and>
      ''Missing requirement.ratioDescription'' \<notin> set us \<and>
      ''Missing requirement.statute'' \<notin> set us"
  proof (cases "truthy (map_of rkvs ''statuteUrl'')")
    case False
    then show ?thesis
      using checkStatuteUrl_falsy [of "JObj rkvs"] by auto
  next
    case True
    with assms(4) obtain url where url: "map_of rkvs ''statuteUrl'' = Some (JStr url)"
      by blast
    with True show ?thesis
      using checkStatuteUrl_string [of "JObj rkvs" url] by simp
  qed
  then obtain us where us: "checkStatuteUrl (JObj rkvs) = Inr us"
    and u1: "''Missing requirement.statuteUrl'' \<in> set us \<longleftrightarrow> \<not> truthy (map_of rkvs ''statuteUrl'')"
    and u2: "\<forall>url. map_of rkvs ''statuteUrl'' = Some (JStr url) \<longrightarrow>
        (''Invalid statute URL: '' @ url \<in> set us \<longleftrightarrow> url \<noteq> [] \<and> \<not> startsWith url ''http'')"
    and u3: "''Missing requirement.requirementType'' \<notin> set us"
      "''Missing requirement.ratioDescription'' \<notin> set us"
      "''Missing requirement.statute'' \<notin> set us"
    by blast
  define m where "m =
      (if \<not> truthy (getProp (JObj rkvs) ''requirementType'')
       then [''Missing requirement.requirementType''] else [])
    @ (if \<not> truthy (getProp (JObj rkvs) ''ratioDescription'')
       then [''Missing requirement.ratioDescription''] else [])
    @ (if \<not> truthy (getProp (JObj rkvs) ''statute'')
       then [''Missing requirement.statute''] else [])"
  have t: "truthy (Some (JObj rkvs))" by simp
  have r: "checkRequirement data = Inr (m @ us)"
    unfolding m_def using checkRequirement_present [OF assms(1,3) t us] by simp
  have nn: "data \<noteq> JNull" using assms(3) by auto
  obtain i1 i3 where
    l: "checkState stateCode data = Inr i1" "length i1 \<le> 1"
    "checkAgencyType data = Inr i3" "length i3 \<le> 1"
    and c: "contentIssues stateCode data =
       Inr (i1 @ checkStateName data @ i3 @ checkHasRequirement data @ (m @ us)
            @ checkNoRequirement data @ checkLastVerified data)"
    by (rule contentIssues_returns [OF nn assms(5,6) r, of stateCode])
  define iss where "iss = i1 @ checkStateName data @ i3 @ checkHasRequirement data @ (m @ us)
            @ checkNoRequirement data @ checkLastVerified data"
  have c': "contentIssues stateCode data = Inr iss"
    using c by (simp only: iss_def)
  obtain i5 where "checkRequirement data = Inr i5"
    "filter aboutRequirement iss = filter aboutRequirement i5"
    by (rule contentIssues_about [OF c'])
  with r have fa: "filter aboutRequirement iss = filter aboutRequirement (m @ us)"
    by simp
  have has: "checkHasRequirement data = [''Missing or invalid hasPublicWorksRequirement'']"
    using assms(2) by (simp add: checkHasRequirement_def)
  have "length (i1 @ checkStateName data @ i3) < 4"
    using l(2,4) by (simp add: checkStateName_def)
  then have p1: "''Missing or invalid hasPublicWorksRequirement'' \<in> set (take 4 iss)"
    using take_prefix_member [of "i1 @ checkStateName data @ i3" 4
        "''Missing or invalid hasPublicWorksRequirement''"
        "(m @ us) @ checkNoRequirement data @ checkLastVerified data"]
    by (simp add: iss_def has)
  have p2: "''Missing requirement.requirementType'' \<in> set iss
        \<longleftrightarrow> \<not> truthy (map_of rkvs ''requirementType'')"
    using member_about [OF _ fa, of "''Missing requirement.requirementType''"] u3(1)
    by (simp add: aboutRequirement_def startsWith_def m_def)
  have p3: "''Missing requirement.ratioDescription'' \<in> set iss
        \<longleftrightarrow> \<not> truthy (map_of rkvs ''ratioDescription'')"
    using member_about [OF _ fa, of "''Missing requirement.ratioDescription''"] u3(2)
    by (simp add: aboutRequirement_def startsWith_def m_def)
  have p4: "''Missing requirement.statute'' \<in> set iss \<longleftrightarrow> \<not> truthy (map_of rkvs ''statute'')"
    using member_about [OF _ fa, of "''Missing requirement.statute''"] u3(3)
    by (simp add: aboutRequirement_def startsWith_def m_def)
  have p5: "''Missing requirement.statuteUrl'' \<in> set iss
        \<longleftrightarrow> \<not> truthy (map_of rkvs ''statuteUrl'')"
    using member_about [OF _ fa, of "''Missing requirement.statuteUrl''"] u1
    by (simp add: aboutRequirement_def startsWith_def m_def)
  have p6: "\<forall>url. map_of rkvs ''statuteUrl'' = Some (JStr url) \<longrightarrow>
        (''Invalid statute URL: '' @ url \<in> set iss \<longleftrightarrow> url \<noteq> [] \<and> \<not> startsWith url ''http'')"
  proof (intro allI impI)
    fix url
    assume a: "map_of rkvs ''statuteUrl'' = Some (JStr url)"
    have "aboutRequirement (''Invalid statute URL: '' @ url)"
      by (simp add: aboutRequirement_def startsWith_def)
    from member_about [OF this fa]
    have "''Invalid statute URL: '' @ url \<in> set iss \<longleftrightarrow> ''Invalid statute URL: '' @ url \<in> set us"
      by (simp add: m_def)
    with u2 a show "''Invalid statute URL: '' @ url \<in> set iss
        \<longleftrightarrow> url \<noteq> [] \<and> \<not> startsWith url ''http''"
      by blast
  qed
  have "checkNoRequirement data = []"
    using assms(3) by (simp add: checkNoRequirement_def)
  moreover have "''hasPublicWorksRequirement is true but no requirement object'' \<notin> set i1"
    using checkState_prefix [OF l(1), of "''hasPublicWorksRequirement is true but no requirement object''"]
    by (auto simp: startsWith_def)
  moreover have "''hasPublicWorksRequirement is true but no requirement object'' \<notin> set i3"
    using checkAgencyType_prefix [OF l(3), of "''hasPublicWorksRequirement is true but no requirement object''"]
    by (auto simp: startsWith_def)
  moreover have "''hasPublicWorksRequirement is true but no requirement object'' \<notin> set us"
    using checkStatuteUrl_about [OF us, of "''hasPublicWorksRequirement is true but no requirement object''"]
    by (auto simp: aboutStatuteUrl_def startsWith_def)
  moreover have "''hasPublicWorksRequirement is true but no requirement object'' \<notin> set m"
    by (simp add: m_def)
  ultimately have p7: "''hasPublicWorksRequirement is true but no requirement object'' \<notin> set iss"
    by (simp add: iss_def has checkStateName_def checkLastVerified_def)
  show ?thesis
  proof (intro exI conjI)
    show "contentIssues stateCode data = Inr iss" by (rule c')
  qed (rule p1 p2 p3 p4 p5 p6 p7)+
qed

lemma truthy_non_boolean_requirement_example:
  "truthy (getProp truthyStringDoc ''hasPublicWorksRequirement'') \<and>
   typeof (getProp truthyStringDoc ''hasPublicWorksRequirement'') \<noteq> ''boolean'' \<and>
   (\<exists>iss. contentIssues ''CA'' truthyStringDoc = Inr iss \<and>
      ''Missing or invalid hasPublicWorksRequirement'' \<in> set (take 4 iss) \<and>
      ''Missing requirement.requirementType'' \<notin> set iss \<and>
      ''Missing requirement.ratioDescription'' \<in> set iss \<and>
      ''Missing requirement.statute'' \<in> set iss \<and>
      ''Missing requirement.statuteUrl'' \<notin> set iss \<and>
      ''Invalid statute URL: ftp://x'' \<in> set iss)"
proof -
  let ?rkvs = "[(''requirementType'', JStr ''ratio''), (''statuteUrl'', JStr ''ftp://x'')]"
  have h1: "truthy (getProp truthyStringDoc ''hasPublicWorksRequirement'')"
    by (simp add: truthyStringDoc_def)
  have h2: "typeof (getProp truthyStringDoc ''hasPublicWorksRequirement'') \<noteq> ''boolean''"
    by (simp add: truthyStringDoc_def)
  have h3: "getProp truthyStringDoc ''requirement'' = Some (JObj ?rkvs)"
    by (simp add: truthyStringDoc_def)
  have h4: "\<not> truthy (map_of ?rkvs ''statuteUrl'')
      \<or> (\<exists>url. map_of ?rkvs ''statuteUrl'' = Some (JStr url))"
    by simp
  have h5: "toStrU (getProp truthyStringDoc ''state'') \<noteq> None"
    by (simp add: truthyStringDoc_def)
  have h6: "toStrU (getProp truthyStringDoc ''agencyType'') \<noteq> None"
    by (simp add: truthyStringDoc_def)
  from truthy_non_boolean_requirement [OF h1 h2 h3 h4 h5 h6, of "''CA''"]
  obtain iss where c: "contentIssues ''CA'' truthyStringDoc = Inr iss"
    and p1: "''Missing or invalid hasPublicWorksRequirement'' \<in> set (take 4 iss)"
    and p2: "''Missing requirement.requirementType'' \<in> set iss
        \<longleftrightarrow> \<not> truthy (map_of ?rkvs ''requirementType'')"
    and p3: "''Missing requirement.ratioDescription'' \<in> set iss
        \<longleftrightarrow> \<not> truthy (map_of ?rkvs ''ratioDescription'')"
    and p4: "''Missing requirement.statute'' \<in> set iss \<longleftrightarrow> \<not> truthy (map_of ?rkvs ''statute'')"
    and p5: "''Missing requirement.statuteUrl'' \<in> set iss
        \<longleftrightarrow> \<not> truthy (map_of ?rkvs ''statuteUrl'')"
    and p6: "\<forall>url. map_of ?rkvs ''statuteUrl'' = Some (JStr url) \<longrightarrow>
        (''Invalid statute URL: '' @ url \<in> set iss \<longleftrightarrow> url \<noteq> [] \<and> \<not> startsWith url ''http'')"
    by (elim exE conjE)
  have q2: "''Missing requirement.requirementType'' \<notin> set iss" using p2 by simp
  have q3: "''Missing requirement.ratioDescription'' \<in> set iss" using p3 by simp
  have q4: "''Missing requirement.statute'' \<in> set iss" using p4 by simp
  have q5: "''Missing requirement.statuteUrl'' \<notin> set iss" using p5 by simp
  have q6: "''Invalid statute URL: ftp://x'' \<in> set iss"
    using p6 [rule_format, of "''ftp://x''"] by (simp add: startsWith_def)
  have "\<exists>iss. contentIssues ''CA'' truthyStringDoc = Inr iss \<and>
      ''Missing or invalid hasPublicWorksRequirement'' \<in> set (take 4 iss) \<and>
      ''Missing requirement.requirementType'' \<notin> set iss \<and>
      ''Missing requirement.ratioDescription'' \<in> set iss \<and>
      ''Missing requirement.statute'' \<in> set iss \<and>
      ''Missing requirement.statuteUrl'' \<notin> set iss \<and>
      ''Invalid statute URL: ftp://x'' \<in> set iss"
  proof (intro exI conjI)
    show "contentIssues ''CA'' truthyStringDoc = Inr iss" by (rule c)
  qed (rule p1 q2 q3 q4 q5 q6)+
  with h1 h2 show ?thesis by (intro conjI)
qed

section \<open>Two runs on the same inputs\<close>

lemma retime_texts: "list_all isText ps \<Longrightarrow> map (retime t) ps = ps"
proof (induction ps)
  case Nil
  then show ?case by simp
next
  case (Cons p ps)
  then show ?case by (cases p) (simp_all add: retime_def)
qed

lemma list_all_isText_map [simp]: "list_all isText (map Text ls)"
  by (induction ls) simp_all

lemma generateReport_texts:
  "\<not> json cfg \<Longrightarrow> list_all isText (stdout st) \<Longrightarrow>
   list_all isText (stdout (generateReport cfg now ss st))"
  by (simp add: generateReport_def Let_def)

lemma generateReport_retime:
  assumes "list_all isText (stdout st)"
  shows "generateReport cfg now2 ss st =
     (generateReport cfg now1 ss st)
       \<lparr>stdout := map (retime now2) (stdout (generateReport cfg now1 ss st))\<rparr>"
proof (cases "json cfg")
  case True
  then show ?thesis
    using retime_texts [OF assms, of now2] by (simp add: generateReport_def retime_def)
next
  case False
  have same: "generateReport cfg now2 ss st = generateReport cfg now1 ss st"
    using False by (simp add: generateReport_def)
  show ?thesis
    unfolding same
    using retime_texts [OF generateReport_texts [OF False assms], of now2 now1 ss] by simp
qed

lemma pof_initial_texts:
  "printsOnlyFindings cfg initial st \<Longrightarrow> list_all isText (stdout st)"
  by (auto simp: printsOnlyFindings_def initial_def)

lemma retime_state:
  "list_all isText (stdout st) \<Longrightarrow> st\<lparr>stdout := map (retime t) (stdout st)\<rparr> = st"
  by (simp add: retime_texts)

text \<open>
  Claim C8. Two runs on the same files that differ in the time of the report end in the
  same state, except for the \<^verbatim>\<open>timestamp\<close> field of the printed report: the status, the
  summary, the counters and the ordered detail list are functions of the inputs. (The
  JSON text is a function of the report.)
\<close>

theorem report_deterministic:
  "main w cfg now2 = (main w cfg now1)\<lparr>stdout := map (retime now2) (stdout (main w cfg now1))\<rparr>"
proof -
  obtain q st1 where v: "validateIndexFile w cfg (banner w cfg initial) = (q, st1)"
    by (cases "validateIndexFile w cfg (banner w cfg initial)")
  have p1: "printsOnlyFindings cfg initial st1"
    using pof_trans [OF pof_banner pof_validateIndexFile, of cfg initial w w] v by simp
  show ?thesis
  proof (cases q)
    case (Inl e)
    have m: "main w cfg now = st1\<lparr>stderr := stderr st1 @ [''Verification script failed:''],
        exitCode := Some 1\<rparr>" for now
      using v Inl by (simp add: main_def main_body_def)
    show ?thesis
      unfolding m using pof_initial_texts [OF p1] by (simp add: retime_texts)
  next
    case (Inr r)
    show ?thesis
    proof (cases r)
      case None
      have m: "main w cfg now = (log cfg CANNOT_CONTINUE st1)\<lparr>exitCode := Some 1\<rparr>" for now
        using v Inr None by (simp add: main_def main_body_def)
      show ?thesis
        unfolding m using pof_initial_texts [OF p1] by (simp add: retime_texts retime_def)
    next
      case (Some index)
      let ?st2 = "log cfg (NL # ''--- Validating State Files ---'') st1"
      obtain l st3 where l: "validateStates w cfg (indexStates index) [] ?st2 = (l, st3)"
        by (cases "validateStates w cfg (indexStates index) [] ?st2")
      have "printsOnlyFindings cfg initial ?st2"
        using p1 by (simp add: pof_intros)
      then have p3: "printsOnlyFindings cfg initial st3"
        using pof_validateStates [of cfg initial ?st2 w "indexStates index" "[]"] l by simp
      show ?thesis
      proof (cases l)
        case (Inl e)
        have m: "main w cfg now = st3\<lparr>stderr := stderr st3 @ [''Verification script failed:''],
            exitCode := Some 1\<rparr>" for now
          using v Inr Some l Inl by (simp add: main_def main_body_def Let_def)
        show ?thesis
          unfolding m using pof_initial_texts [OF p3] by (simp add: retime_texts)
      next
        case (Inr stateStats)
        have m: "main w cfg now = generateReport cfg now stateStats (validateSearchIndex w cfg st3)"
          for now
          using v \<open>q = Inr r\<close> Some l Inr by (simp add: main_def main_body_def Let_def)
        have "printsOnlyFindings cfg initial (validateSearchIndex w cfg st3)"
          using p3 by (rule pof_validateSearchIndex)
        then have "list_all isText (stdout (validateSearchIndex w cfg st3))"
          by (rule pof_initial_texts)
        then show ?thesis
          unfolding m by (rule generateReport_retime)
      qed
    qed
  qed
qed

theorem report_deterministic_witness:
  "\<exists>r. stdout (main smallWorld jsonMode ''2024-02-01T00:00:00.000Z'') = [Json r] \<and>
       stdout (main smallWorld jsonMode ''2024-02-02T12:30:00.000Z'')
         = [Json (r\<lparr>r_timestamp := ''2024-02-02T12:30:00.000Z''\<rparr>)]"
proof -
  have r: "reachesReport smallWorld jsonMode"
    by code_simp
  from r obtain ix st1 ss st3 where
    m: "main smallWorld jsonMode ''2024-02-01T00:00:00.000Z''
        = generateReport jsonMode ''2024-02-01T00:00:00.000Z'' ss
            (validateSearchIndex smallWorld jsonMode st3)"
    and p: "printsOnlyFindings jsonMode initial (validateSearchIndex smallWorld jsonMode st3)"
    by (rule main_reaches_report)
  have "json jsonMode" by (simp add: jsonMode_def)
  with before_report(2) [OF p] m
  obtain r1 where r1: "stdout (main smallWorld jsonMode ''2024-02-01T00:00:00.000Z'') = [Json r1]"
    by (simp add: generateReport_stdout_json)
  have "stdout (main smallWorld jsonMode ''2024-02-02T12:30:00.000Z'')
      = stdout ((main smallWorld jsonMode ''2024-02-01T00:00:00.000Z'')
          \<lparr>stdout := map (retime ''2024-02-02T12:30:00.000Z'')
             (stdout (main smallWorld jsonMode ''2024-02-01T00:00:00.000Z''))\<rparr>)"
    by (rule arg_cong [OF report_deterministic])
  then have "stdout (main smallWorld jsonMode ''2024-02-02T12:30:00.000Z'')
      = [Json (r1\<lparr>r_timestamp := ''2024-02-02T12:30:00.000Z''\<rparr>)]"
    by (simp add: r1 retime_def)
  with r1 show ?thesis by (intro exI [of _ r1] conjI)
qed

section \<open>A run on valid inputs\<close>

lemma validateIndexFile_valid:
  assumes "indexFile w = Parsed index"
    and "getProp index ''lastUpdated'' = Some v" and "truthy (Some v)"
    and "toPrimitive v = Some p" and "dateIsValid w p"
    and "getProp index ''states'' = Some (JObj kvs)"
    and "set EXPECTED_STATES \<subseteq> fst ` set kvs"
  shows "fst (validateIndexFile w cfg st) = Inr (Some index)"
    and "errors (snd (validateIndexFile w cfg st)) = errors st"
    and "warnings (snd (validateIndexFile w cfg st)) = warnings st"
proof -
  have nn: "index \<noteq> JNull" using assms(2) by auto
  have miss: "missingStates index = []"
    using assms(6,7) by (auto simp: missingStates_def indexStates_def filter_empty_conv)
  have lu: "checkLastUpdated w cfg index st' = Inr (pass cfg ''lastUpdated is valid date'' st')"
    for st'
    using assms(2,3,4,5) by (simp add: checkLastUpdated_def)
  have v: "validateIndexFile w cfg st =
     (Inr (Some index),
      checkCoverage cfg index
        (pass cfg ''index.json has states object''
          (pass cfg ''lastUpdated is valid date''
            (pass cfg ''index.json is valid JSON''
              (pass cfg ''index.json exists''
                (log cfg (NL # ''--- Validating index.json ---'') st))))))"
    using assms(1,6) nn by (simp add: validateIndexFile_def Let_def lu)
  show "fst (validateIndexFile w cfg st) = Inr (Some index)"
    by (simp add: v)
  show "errors (snd (validateIndexFile w cfg st)) = errors st"
    by (simp add: v checkCoverage_fields)
  show "warnings (snd (validateIndexFile w cfg st)) = warnings st"
    by (simp add: v checkCoverage_fields miss)
qed

lemma validateStates_valid:
  assumes "\<forall>c \<in> set cs. \<exists>data. stateFile w c = Parsed data \<and> contentIssues c data = Inr []"
  shows "\<exists>ss' st'. validateStates w cfg cs ss st = (Inr ss', st') \<and>
           errors st' = errors st \<and> warnings st' = warnings st"
  using assms
proof (induction cs arbitrary: ss st)
  case Nil
  then show ?case by simp
next
  case (Cons c cs)
  from Cons.prems obtain data where d: "stateFile w c = Parsed data"
    "contentIssues c data = Inr []"
    by auto
  let ?r = "Some \<lparr>issues = 0, hasReq = getProp data ''hasPublicWorksRequirement''\<rparr>"
  let ?st1 = "reportFindings cfg c [] st"
  have step: "validateStateFile w cfg c st = (Inr ?r, ?st1)"
    using d by (simp add: validateStateFile_def)
  from Cons.prems have "\<forall>c \<in> set cs. \<exists>data. stateFile w c = Parsed data \<and> contentIssues c data = Inr []"
    by simp
  from Cons.IH [OF this, of "assign ss c ?r" ?st1]
  obtain ss' st' where "validateStates w cfg cs (assign ss c ?r) ?st1 = (Inr ss', st')"
    "errors st' = errors ?st1" "warnings st' = warnings ?st1"
    by (elim exE conjE)
  then have "validateStates w cfg (c # cs) ss st = (Inr ss', st') \<and>
           errors st' = errors st \<and> warnings st' = warnings st"
    using step by (simp add: reportFindings_fields)
  then show ?case by (intro exI)
qed

lemma valid_run:
  assumes "validInputs w"
  obtains ss st3 where "reachesReport w cfg"
    "main w cfg now = generateReport cfg now ss (validateSearchIndex w cfg st3)"
    "errors st3 = 0" "warnings st3 = 0"
    "printsOnlyFindings cfg initial (validateSearchIndex w cfg st3)"
proof -
  from assms obtain index v p kvs where
    a: "indexFile w = Parsed index" "getProp index ''lastUpdated'' = Some v" "truthy (Some v)"
      "toPrimitive v = Some p" "dateIsValid w p" "getProp index ''states'' = Some (JObj kvs)"
      "set EXPECTED_STATES \<subseteq> fst ` set kvs"
    and regions: "\<forall>c \<in> fst ` set kvs.
           \<exists>data. stateFile w c = Parsed data \<and> contentIssues c data = Inr []"
    unfolding validInputs_def by (elim exE conjE)
  let ?st0 = "banner w cfg initial"
  obtain q st1 where q: "validateIndexFile w cfg ?st0 = (q, st1)"
    by (cases "validateIndexFile w cfg ?st0")
  note vi = validateIndexFile_valid [OF a, of cfg ?st0]
  have q': "q = Inr (Some index)" and e1: "errors st1 = 0" and w1: "warnings st1 = 0"
    using vi q by (simp_all add: banner_def initial_def)
  let ?st2 = "log cfg (NL # ''--- Validating State Files ---'') st1"
  have keys: "indexStates index = map fst kvs"
    using a(6) by (simp add: indexStates_def)
  have "\<forall>c \<in> set (map fst kvs).
      \<exists>data. stateFile w c = Parsed data \<and> contentIssues c data = Inr []"
    using regions by simp
  from validateStates_valid [OF this, of cfg "[]" ?st2]
  obtain ss st3 where l: "validateStates w cfg (map fst kvs) [] ?st2 = (Inr ss, st3)"
    and e3: "errors st3 = errors ?st2" and w3: "warnings st3 = warnings ?st2"
    by (elim exE conjE)
  have r: "reachesReport w cfg"
    using q q' l keys by (simp add: reachesReport_def)
  have m: "main w cfg now = generateReport cfg now ss (validateSearchIndex w cfg st3)"
    using q q' l keys by (simp add: main_def main_body_def Let_def)
  have "printsOnlyFindings cfg initial st1"
    using pof_trans [OF pof_banner pof_validateIndexFile, of cfg initial w w] q by simp
  then have "printsOnlyFindings cfg initial ?st2"
    by (simp add: pof_intros)
  then have "printsOnlyFindings cfg initial st3"
    using pof_validateStates [of cfg initial ?st2 w "map fst kvs" "[]"] l by simp
  then have p: "printsOnlyFindings cfg initial (validateSearchIndex w cfg st3)"
    by (rule pof_validateSearchIndex)
  show ?thesis
    using that [OF r m _ _ p] e3 w3 e1 w1 by simp
qed

lemma exampleDoc_valid: "contentIssues c (exampleDoc c) = Inr []"
  by (simp add: contentIssues_def exampleDoc_def checkState_def checkStateName_def
      checkAgencyType_def checkHasRequirement_def checkRequirement_def checkNoRequirement_def
      checkLastVerified_def)

lemma validInputs_example:
  "validInputs (exampleWorld\<lparr>searchIndexFile := f\<rparr>)"
  unfolding validInputs_def
proof (intro exI conjI)
  let ?kvs = "map (\<lambda>c. (c, JObj [])) EXPECTED_STATES"
  show "indexFile (exampleWorld\<lparr>searchIndexFile := f\<rparr>) = Parsed exampleIndex"
    by (simp add: exampleWorld_def)
  show "getProp exampleIndex ''lastUpdated'' = Some (JStr ''2024-01-15'')"
    by (simp add: exampleIndex_def)
  show "truthy (Some (JStr ''2024-01-15''))" by simp
  show "toPrimitive (JStr ''2024-01-15'') = Some (JStr ''2024-01-15'')" by simp
  show "dateIsValid (exampleWorld\<lparr>searchIndexFile := f\<rparr>) (JStr ''2024-01-15'')"
    by (simp add: exampleWorld_def)
  show "getProp exampleIndex ''states'' = Some (JObj ?kvs)"
    by (simp add: exampleIndex_def)
  show "set EXPECTED_STATES \<subseteq> fst ` set ?kvs"
    by (simp add: image_image)
  show "\<forall>c \<in> fst ` set ?kvs. \<exists>data. stateFile (exampleWorld\<lparr>searchIndexFile := f\<rparr>) c
      = Parsed data \<and> contentIssues c data = Inr []"
    by (simp add: exampleWorld_def exampleDoc_valid)
qed

text \<open>
  Claim C3, as the code has it. When the index is valid, every expected code is a key of
  \<^verbatim>\<open>states\<close>, every region document passes every content check, and the search index
  artifact exists and is an array, the run reaches its report with no error and no
  warning, the status passed and the exit status 0, in both output modes.
\<close>

theorem valid_inputs_pass:
  assumes "validInputs w" and "searchIndexFile w = Parsed (JArr xs)"
  shows "reachesReport w cfg \<and> errors (main w cfg now) = 0 \<and> warnings (main w cfg now) = 0 \<and>
    exitStatus (main w cfg now) = 0 \<and>
    (if json cfg
     then \<exists>r. stdout (main w cfg now) = [Json r] \<and> r_status r = ''passed'' \<and> r_errors r = 0
     else \<exists>pre. stdout (main w cfg now) =
            pre @ [Text (CHECK_MARK @ '' VERIFICATION PASSED''),
                   Text (''----------------------------------------'' @ [NL])])"
proof -
  from assms(1) obtain ss st3 where r: "reachesReport w cfg"
    and m: "main w cfg now = generateReport cfg now ss (validateSearchIndex w cfg st3)"
    and z: "errors st3 = 0" "warnings st3 = 0"
    and p: "printsOnlyFindings cfg initial (validateSearchIndex w cfg st3)"
    by (rule valid_run)
  let ?st = "validateSearchIndex w cfg st3"
  have e: "errors ?st = 0" and wn: "warnings ?st = 0"
    using validateSearchIndex_array [OF assms(2), of cfg st3] z by simp_all
  have ec: "exitCode ?st = None"
    by (rule before_report(1) [OF p])
  have out: "json cfg \<Longrightarrow> stdout ?st = []"
    by (rule before_report(2) [OF p])
  note v = generateReport_verdict [where cfg = cfg and now = now and stateStats = ss,
        OF ec out]
  have verdict: "if json cfg
     then \<exists>r. stdout (main w cfg now) = [Json r] \<and> r_status r = ''passed'' \<and> r_errors r = 0
     else \<exists>pre. stdout (main w cfg now) =
            pre @ [Text (CHECK_MARK @ '' VERIFICATION PASSED''),
                   Text (''----------------------------------------'' @ [NL])]"
    unfolding m using v(1) e wn by (auto split: if_splits)
  have counters: "errors (main w cfg now) = 0" "warnings (main w cfg now) = 0"
    "exitStatus (main w cfg now) = 0"
    unfolding m using v(2) e wn by simp_all
  show ?thesis
    by (rule conjI [OF r conjI [OF counters(1) conjI [OF counters(2) conjI [OF counters(3) verdict]]]])
qed

theorem valid_inputs_pass_witness:
  "validInputs exampleWorld \<and> searchIndexFile exampleWorld = Parsed (JArr []) \<and>
   reachesReport exampleWorld jsonMode \<and>
   errors (main exampleWorld jsonMode ''2024-02-01T00:00:00.000Z'') = 0 \<and>
   exitStatus (main exampleWorld jsonMode ''2024-02-01T00:00:00.000Z'') = 0 \<and>
   (\<exists>r. stdout (main exampleWorld jsonMode ''2024-02-01T00:00:00.000Z'') = [Json r] \<and>
        r_status r = ''passed'' \<and> r_errors r = 0)"
proof -
  have v: "validInputs exampleWorld"
    using validInputs_example [of "Parsed (JArr [])"] by (simp add: exampleWorld_def)
  have s: "searchIndexFile exampleWorld = Parsed (JArr [])"
    by (simp add: exampleWorld_def)
  show ?thesis
    using valid_inputs_pass [OF v s, of jsonMode "''2024-02-01T00:00:00.000Z''"] v s
    by (simp add: jsonMode_def)
qed

text \<open>
  Claim C3 as written says nothing of the search index artifact, which the run checks
  too: with the same valid index and regions, an absent artifact gives the status passed
  with warnings, and an artifact that is not an array gives one error, the status failed
  and the exit status 1.
\<close>

theorem valid_inputs_counterexample:
  "validInputs noSearchWorld \<and>
   (\<exists>r. stdout (main noSearchWorld jsonMode ''2024-02-01T00:00:00.000Z'') = [Json r] \<and>
        r_status r = ''passed_with_warnings'' \<and> r_warnings r = 1) \<and>
   validInputs objectSearchWorld \<and>
   errors (main objectSearchWorld jsonMode ''2024-02-01T00:00:00.000Z'') = 1 \<and>
   exitStatus (main objectSearchWorld jsonMode ''2024-02-01T00:00:00.000Z'') = 1 \<and>
   (\<exists>r. stdout (main objectSearchWorld jsonMode ''2024-02-01T00:00:00.000Z'') = [Json r] \<and>
        r_status r = ''failed'')"
proof -
  let ?now = "''2024-02-01T00:00:00.000Z''"
  have j: "json jsonMode" by (simp add: jsonMode_def)
  have v1: "validInputs noSearchWorld"
    unfolding noSearchWorld_def by (rule validInputs_example)
  have v2: "validInputs objectSearchWorld"
    unfolding objectSearchWorld_def by (rule validInputs_example)
  have a: "\<exists>r. stdout (main noSearchWorld jsonMode ?now) = [Json r] \<and>
        r_status r = ''passed_with_warnings'' \<and> r_warnings r = 1"
  proof -
    from v1 obtain ss st3 where
      m: "main noSearchWorld jsonMode ?now
          = generateReport jsonMode ?now ss (validateSearchIndex noSearchWorld jsonMode st3)"
      and z: "errors st3 = 0" "warnings st3 = 0"
      and p: "printsOnlyFindings jsonMode initial (validateSearchIndex noSearchWorld jsonMode st3)"
      by (rule valid_run [where cfg = jsonMode and now = ?now])
    have f: "searchIndexFile noSearchWorld = Missing"
      by (simp add: noSearchWorld_def)
    show ?thesis
      unfolding m
      using validateSearchIndex_missing [OF f, of jsonMode st3] z before_report(2) [OF p] j
      by (simp add: generateReport_stdout_json)
  qed
  have b: "errors (main objectSearchWorld jsonMode ?now) = 1 \<and>
      exitStatus (main objectSearchWorld jsonMode ?now) = 1 \<and>
      (\<exists>r. stdout (main objectSearchWorld jsonMode ?now) = [Json r] \<and> r_status r = ''failed'')"
  proof -
    from v2 obtain ss st3 where
      m: "main objectSearchWorld jsonMode ?now
          = generateReport jsonMode ?now ss (validateSearchIndex objectSearchWorld jsonMode st3)"
      and z: "errors st3 = 0" "warnings st3 = 0"
      and p: "printsOnlyFindings jsonMode initial
          (validateSearchIndex objectSearchWorld jsonMode st3)"
      by (rule valid_run [where cfg = jsonMode and now = ?now])
    have f: "searchIndexFile objectSearchWorld = Parsed (JObj [])"
      by (simp add: objectSearchWorld_def)
    have n: "\<not> isArray (JObj [])" by simp
    show ?thesis
      unfolding m
      using validateSearchIndex_not_array [OF f n, of jsonMode st3] z before_report [OF p] j
      by (simp add: generateReport_stdout_json generateReport_exitCode exitStatus_def)
  qed
  show ?thesis
    using v1 a v2 b by (intro conjI) simp_all
qed

section \<open>Runs that end early\<close>

lemma validateIndexFile_result:
  "fst (validateIndexFile w cfg st) =
     (case indexFile w of
        Missing \<Rightarrow> Inr None
      | ParseError m \<Rightarrow> Inr None
      | Parsed index \<Rightarrow>
          if index = JNull \<or> dateConversionThrows index then Inl TypeError
          else if truthy (getProp index ''states'') \<and> typeof (getProp index ''states'') = ''object''
          then Inr (Some index) else Inr None)"
proof (cases "indexFile w")
  case Missing
  then show ?thesis by (simp add: validateIndexFile_def Let_def)
next
  case (ParseError m)
  then show ?thesis by (simp add: validateIndexFile_def Let_def)
next
  case (Parsed index)
  show ?thesis
  proof (cases "index = JNull \<or> dateConversionThrows index")
    case True
    with validateIndexFile_throws [OF Parsed True, of cfg st] Parsed show ?thesis by simp
  next
    case False
    then have nn: "index \<noteq> JNull" and nt: "\<not> dateConversionThrows index" by simp_all
    obtain st3 ds where "warnings st3 = warnings st" "errors st3 = errors st + length ds"
      "details st3 = details st @ ds"
      "\<forall>d \<in> set ds. d_type d = Error \<and> d_check d \<noteq> ''index.json has states object''"
      and v: "validateIndexFile w cfg st =
       (if truthy (getProp index ''states'') \<and> typeof (getProp index ''states'') = ''object''
        then (Inr (Some index),
              checkCoverage cfg index (pass cfg ''index.json has states object'' st3))
        else (Inr None, fail cfg ''index.json has states object'' (JStr []) st3))"
      by (rule validateIndexFile_parsed [OF Parsed nn nt, of st cfg])
    show ?thesis
      using Parsed False by (simp add: v)
  qed
qed

lemma validateIndexFile_fatal:
  "fst (validateIndexFile w cfg st) = Inr None \<longleftrightarrow> indexFatal w"
  unfolding validateIndexFile_result indexFatal_def
  by (auto split: file_result.splits)

lemma checkLastUpdated_indep:
  "checkLastUpdated (w\<lparr>stateFile := f, searchIndexFile := g\<rparr>) cfg index st
     = checkLastUpdated w cfg index st"
  by (simp add: checkLastUpdated_def split: option.splits)

lemma validateIndexFile_indep:
  "validateIndexFile (w\<lparr>stateFile := f, searchIndexFile := g\<rparr>) cfg st = validateIndexFile w cfg st"
  by (simp add: validateIndexFile_def checkLastUpdated_indep Let_def split: file_result.splits)

lemma banner_indep:
  "banner (w\<lparr>stateFile := f, searchIndexFile := g\<rparr>) cfg st = banner w cfg st"
  by (simp add: banner_def)

lemma pof_no_cc:
  "printsOnlyFindings cfg initial st \<Longrightarrow> Text CANNOT_CONTINUE \<notin> set (stdout st)"
  by (auto simp: printsOnlyFindings_def initial_def)

lemma generateReport_no_cc:
  "Text CANNOT_CONTINUE \<in> set (stdout (generateReport cfg now ss st))
     \<longleftrightarrow> Text CANNOT_CONTINUE \<in> set (stdout st)"
  by (simp add: generateReport_def Let_def CANNOT_CONTINUE_def NL_def)

lemma main_fatal:
  assumes "indexFatal w"
  shows "exitStatus (main w cfg now) = 1" and "stderr (main w cfg now) = []"
    and "\<not> reachesReport w cfg"
    and "if json cfg then stdout (main w cfg now) = []
         else Text CANNOT_CONTINUE \<in> set (stdout (main w cfg now)) \<and>
              last (stdout (main w cfg now)) = Text CANNOT_CONTINUE"
    and "main (w\<lparr>stateFile := f, searchIndexFile := g\<rparr>) cfg now = main w cfg now"
proof -
  obtain q st1 where v: "validateIndexFile w cfg (banner w cfg initial) = (q, st1)"
    by (cases "validateIndexFile w cfg (banner w cfg initial)")
  have q: "q = Inr None"
    using validateIndexFile_fatal [of w cfg "banner w cfg initial"] assms v by simp
  have p1: "printsOnlyFindings cfg initial st1"
    using pof_trans [OF pof_banner pof_validateIndexFile, of cfg initial w w] v by simp
  have m: "main w cfg now = (log cfg CANNOT_CONTINUE st1)\<lparr>exitCode := Some 1\<rparr>"
    using v q by (simp add: main_def main_body_def)
  show "exitStatus (main w cfg now) = 1"
    by (simp add: m exitStatus_def)
  show "stderr (main w cfg now) = []"
    using p1 by (simp add: m printsOnlyFindings_def initial_def)
  show "\<not> reachesReport w cfg"
    using v q by (simp add: reachesReport_def)
  show "if json cfg then stdout (main w cfg now) = []
         else Text CANNOT_CONTINUE \<in> set (stdout (main w cfg now)) \<and>
              last (stdout (main w cfg now)) = Text CANNOT_CONTINUE"
    using before_report(2) [OF p1] by (simp add: m)
  have "validateIndexFile (w\<lparr>stateFile := f, searchIndexFile := g\<rparr>) cfg
      (banner (w\<lparr>stateFile := f, searchIndexFile := g\<rparr>) cfg initial) = (Inr None, st1)"
    using v q by (simp only: validateIndexFile_indep banner_indep)
  then have "main (w\<lparr>stateFile := f, searchIndexFile := g\<rparr>) cfg now
      = (log cfg CANNOT_CONTINUE st1)\<lparr>exitCode := Some 1\<rparr>"
    by (simp add: main_def main_body_def)
  then show "main (w\<lparr>stateFile := f, searchIndexFile := g\<rparr>) cfg now = main w cfg now"
    by (simp only: m)
qed

lemma main_not_fatal:
  assumes "\<not> indexFatal w"
  shows "Text CANNOT_CONTINUE \<notin> set (stdout (main w cfg now))"
proof -
  obtain q st1 where v: "validateIndexFile w cfg (banner w cfg initial) = (q, st1)"
    by (cases "validateIndexFile w cfg (banner w cfg initial)")
  have q: "q \<noteq> Inr None"
    using validateIndexFile_fatal [of w cfg "banner w cfg initial"] assms v by simp
  have p1: "printsOnlyFindings cfg initial st1"
    using pof_trans [OF pof_banner pof_validateIndexFile, of cfg initial w w] v by simp
  show ?thesis
  proof (cases q)
    case (Inl e)
    have m: "main w cfg now = st1\<lparr>stderr := stderr st1 @ [''Verification script failed:''],
        exitCode := Some 1\<rparr>"
      using v Inl by (simp add: main_def main_body_def)
    show ?thesis
      using pof_no_cc [OF p1] by (simp add: m)
  next
    case (Inr r)
    with q obtain index where r: "r = Some index" by (cases r) simp_all
    let ?st2 = "log cfg (NL # ''--- Validating State Files ---'') st1"
    obtain l st3 where l: "validateStates w cfg (indexStates index) [] ?st2 = (l, st3)"
      by (cases "validateStates w cfg (indexStates index) [] ?st2")
    have "printsOnlyFindings cfg initial ?st2"
      using p1 by (simp add: pof_intros)
    then have p3: "printsOnlyFindings cfg initial st3"
      using pof_validateStates [of cfg initial ?st2 w "indexStates index" "[]"] l by simp
    show ?thesis
    proof (cases l)
      case (Inl e)
      have m: "main w cfg now = st3\<lparr>stderr := stderr st3 @ [''Verification script failed:''],
          exitCode := Some 1\<rparr>"
        using v Inr r l Inl by (simp add: main_def main_body_def Let_def)
      show ?thesis
        using pof_no_cc [OF p3] by (simp add: m)
    next
      case (Inr stateStats)
      have m: "main w cfg now = generateReport cfg now stateStats (validateSearchIndex w cfg st3)"
        using v \<open>q = Inr r\<close> r l Inr by (simp add: main_def main_body_def Let_def)
      have "printsOnlyFindings cfg initial (validateSearchIndex w cfg st3)"
        using p3 by (rule pof_validateSearchIndex)
      from pof_no_cc [OF this] show ?thesis
        by (simp only: m generateReport_no_cc not_False_eq_True)
    qed
  qed
qed

lemma region_file_unusable:
  assumes "stateFile w c = Missing \<or> (\<exists>m. stateFile w c = ParseError m)"
  shows "fst (validateStateFile w cfg c st) = Inr None"
    and "errors (snd (validateStateFile w cfg c st)) = errors st + 1"
    and "warnings (snd (validateStateFile w cfg c st)) = warnings st"
    and "passed (snd (validateStateFile w cfg c st)) = passed st"
    and "\<exists>d. details (snd (validateStateFile w cfg c st)) = details st @ [d] \<and> d_type d = Error"
    and "validateStates w cfg (c # rest) ss st =
           validateStates w cfg rest (assign ss c None) (snd (validateStateFile w cfg c st))"
  using assms by (auto simp: validateStateFile_def)

section \<open>The status and the exit status of a run that reaches its report\<close>

lemma reachesReport_reportInput: "reachesReport w cfg \<longleftrightarrow> reportInput w cfg \<noteq> None"
  by (simp add: reachesReport_def reportInput_def split: prod.splits sum.splits option.splits)

lemma main_reportInput:
  assumes "reportInput w cfg = Some (ss, st)"
  shows "main w cfg now = generateReport cfg now ss st"
    and "printsOnlyFindings cfg initial st"
proof -
  have r: "reachesReport w cfg"
    using assms by (simp add: reachesReport_reportInput)
  from r obtain index st1 stateStats st3 where
    v: "validateIndexFile w cfg (banner w cfg initial) = (Inr (Some index), st1)"
    and l: "validateStates w cfg (indexStates index) []
       (log cfg (NL # ''--- Validating State Files ---'') st1) = (Inr stateStats, st3)"
    and m: "main w cfg now = generateReport cfg now stateStats (validateSearchIndex w cfg st3)"
    and p: "printsOnlyFindings cfg initial (validateSearchIndex w cfg st3)"
    by (rule main_reaches_report)
  have "reportInput w cfg = Some (stateStats, validateSearchIndex w cfg st3)"
    using v l by (simp add: reportInput_def)
  with assms have e: "ss = stateStats" "st = validateSearchIndex w cfg st3"
    by simp_all
  show "main w cfg now = generateReport cfg now ss st"
    using m by (simp only: e)
  show "printsOnlyFindings cfg initial st"
    using p by (simp only: e)
qed

lemma counted_initial: "counted initial"
  by (simp add: counted_def initial_def)

lemma counted_log [simp]: "counted (log cfg m st) = counted st"
  by (simp add: counted_def)

lemma counted_pass [simp]: "counted (pass cfg c st) = counted st"
  by (simp add: counted_def)

lemma counted_warn: "counted st \<Longrightarrow> counted (warn cfg c d st)"
  by (simp add: counted_def)

lemma counted_fail: "counted st \<Longrightarrow> counted (fail cfg c d st)"
  by (simp add: counted_def)

lemma counted_fold_log [simp]: "counted (fold (log cfg) ms st) = counted st"
  by (simp add: counted_def)

lemma counted_checkLastUpdated:
  "checkLastUpdated w cfg index st = Inr st' \<Longrightarrow> counted st \<Longrightarrow> counted st'"
  by (auto simp: checkLastUpdated_def counted_fail split: option.splits if_splits)

lemma counted_checkCoverage: "counted st \<Longrightarrow> counted (checkCoverage cfg index st)"
  by (simp add: checkCoverage_def counted_warn)

lemma counted_validateIndexFile:
  assumes "counted st"
  shows "counted (snd (validateIndexFile w cfg st))"
proof (cases "indexFile w")
  case Missing
  then show ?thesis using assms by (simp add: validateIndexFile_def Let_def counted_fail)
next
  case (ParseError m)
  then show ?thesis using assms by (simp add: validateIndexFile_def Let_def counted_fail)
next
  case (Parsed index)
  let ?st2 = "pass cfg ''index.json is valid JSON''
      (pass cfg ''index.json exists'' (log cfg (NL # ''--- Validating index.json ---'') st))"
  have st2: "counted ?st2" using assms by simp
  show ?thesis
  proof (cases "checkLastUpdated w cfg index ?st2")
    case (Inl e)
    with Parsed st2 show ?thesis by (simp add: validateIndexFile_def Let_def)
  next
    case (Inr st3)
    then have "counted st3"
      using counted_checkLastUpdated st2 by blast
    with Parsed Inr st2 show ?thesis
      by (simp add: validateIndexFile_def Let_def counted_fail counted_checkCoverage)
  qed
qed

lemma counted_fold_warn:
  "counted st \<Longrightarrow> counted (fold (\<lambda>issue. warn cfg c (JStr issue)) iss st)"
  by (induction iss arbitrary: st) (simp_all add: counted_warn)

lemma counted_reportFindings:
  "counted st \<Longrightarrow> counted (reportFindings cfg c iss st)"
  by (simp add: reportFindings_def Let_def counted_fold_warn counted_warn)

lemma counted_validateStateFile:
  "counted st \<Longrightarrow> counted (snd (validateStateFile w cfg c st))"
  by (simp add: validateStateFile_def counted_reportFindings counted_fail
      split: file_result.splits sum.splits)

lemma counted_validateStates:
  "counted st \<Longrightarrow> counted (snd (validateStates w cfg cs ss st))"
proof (induction cs arbitrary: ss st)
  case Nil
  then show ?case by simp
next
  case (Cons c cs)
  obtain r st1 where r: "validateStateFile w cfg c st = (r, st1)"
    by (cases "validateStateFile w cfg c st")
  have step: "counted st1"
    using counted_validateStateFile [OF Cons.prems, of w cfg c] r by simp
  show ?case
  proof (cases r)
    case (Inl e)
    with r step show ?thesis by simp
  next
    case (Inr v)
    with r Cons.IH [OF step, of "assign ss c v"] show ?thesis by simp
  qed
qed

lemma counted_validateSearchIndex:
  "counted st \<Longrightarrow> counted (validateSearchIndex w cfg st)"
  by (simp add: validateSearchIndex_def Let_def counted_warn counted_fail
      split: file_result.splits)

lemma counted_banner [simp]: "counted (banner w cfg st) = counted st"
  by (simp add: banner_def)

lemma counted_reportInput:
  assumes "reportInput w cfg = Some (ss, st)"
  shows "counted st"
proof -
  obtain q st1 where v: "validateIndexFile w cfg (banner w cfg initial) = (q, st1)"
    by (cases "validateIndexFile w cfg (banner w cfg initial)")
  have c1: "counted st1"
    using counted_validateIndexFile [of "banner w cfg initial" w cfg] v
    by (simp add: counted_initial)
  from assms v obtain index where q: "q = Inr (Some index)"
    by (auto simp: reportInput_def split: sum.splits option.splits)
  let ?st2 = "log cfg (NL # ''--- Validating State Files ---'') st1"
  obtain l st3 where l: "validateStates w cfg (indexStates index) [] ?st2 = (l, st3)"
    by (cases "validateStates w cfg (indexStates index) [] ?st2")
  have c3: "counted st3"
    using counted_validateStates [of ?st2 w cfg "indexStates index" "[]"] l c1 by simp
  from assms v q l have "st = validateSearchIndex w cfg st3"
    by (auto simp: reportInput_def split: sum.splits)
  with c3 show ?thesis by (simp add: counted_validateSearchIndex)
qed

lemma reportInput_mode:
  assumes "reportInput w cfg1 = Some (ss, a)"
  shows "\<exists>b. reportInput w cfg2 = Some (ss, b) \<and> results b = results a"
proof -
  let ?a0 = "banner w cfg1 initial" and ?b0 = "banner w cfg2 initial"
  have r0: "results ?a0 = results ?b0" by simp
  obtain q a1 where va: "validateIndexFile w cfg1 ?a0 = (q, a1)"
    by (cases "validateIndexFile w cfg1 ?a0")
  obtain q' b1 where vb: "validateIndexFile w cfg2 ?b0 = (q', b1)"
    by (cases "validateIndexFile w cfg2 ?b0")
  have same: "q' = q" and r1: "results a1 = results b1"
    using results_validateIndexFile [OF r0, of w cfg1 cfg2] va vb by simp_all
  from assms va obtain index where q: "q = Inr (Some index)"
    by (auto simp: reportInput_def split: sum.splits option.splits)
  let ?a2 = "log cfg1 (NL # ''--- Validating State Files ---'') a1"
  let ?b2 = "log cfg2 (NL # ''--- Validating State Files ---'') b1"
  have r2: "results ?a2 = results ?b2" using r1 by simp
  obtain l a3 where la: "validateStates w cfg1 (indexStates index) [] ?a2 = (l, a3)"
    by (cases "validateStates w cfg1 (indexStates index) [] ?a2")
  obtain l' b3 where lb: "validateStates w cfg2 (indexStates index) [] ?b2 = (l', b3)"
    by (cases "validateStates w cfg2 (indexStates index) [] ?b2")
  have same': "l' = l" and r3: "results a3 = results b3"
    using results_validateStates [OF r2, of w cfg1 "indexStates index" "[]" cfg2] la lb
    by simp_all
  from assms va q la have l: "l = Inr ss" and a: "a = validateSearchIndex w cfg1 a3"
    by (auto simp: reportInput_def split: sum.splits)
  have "reportInput w cfg2 = Some (ss, validateSearchIndex w cfg2 b3)"
    using vb same q lb same' l by (simp add: reportInput_def)
  moreover have "results (validateSearchIndex w cfg2 b3) = results a"
    unfolding a using results_validateSearchIndex [OF r3, of w cfg1 cfg2] by simp
  ultimately show ?thesis by blast
qed

text \<open>
  Claim C1. Let a run reach report generation, and let \<open>st\<close> be the state in which
  \<^verbatim>\<open>generateReport\<close> is called: its error and warning counters are those the validators
  accumulated, each the number of entries of its kind in the detail log. The report leaves
  the counters and the log as they are, and the overall status follows the strict
  precedence on these counters: failed when the error counter is positive, otherwise
  passed with warnings when the warning counter is positive, otherwise passed. This holds
  for the \<^verbatim>\<open>status\<close> field of the machine-readable report as for the verdict line of the
  human-readable summary. In both modes the exit status is 1 when the error counter is
  positive and 0 otherwise. A run on the same files in the other mode reaches its report
  too, with the same summaries, counters and detail log.
\<close>

theorem status_precedence:
  assumes "reportInput w cfg = Some (stateStats, st)"
  shows "main w cfg now = generateReport cfg now stateStats st \<and>
         errors (main w cfg now) = errors st \<and>
         warnings (main w cfg now) = warnings st \<and>
         details (main w cfg now) = details st \<and>
         errors st = length (filter (\<lambda>d. d_type d = Error) (details st)) \<and>
         warnings st = length (filter (\<lambda>d. d_type d = Warning) (details st)) \<and>
         (if json cfg
          then \<exists>r. stdout (main w cfg now) = [Json r] \<and>
                 r_status r = (if errors st > 0 then ''failed''
                               else if warnings st > 0 then ''passed_with_warnings''
                               else ''passed'') \<and>
                 r_errors r = errors st \<and> r_warnings r = warnings st
          else \<exists>pre. stdout (main w cfg now) =
                 pre @ [Text (if errors st > 0
                              then BALLOT_X @ '' VERIFICATION FAILED''
                              else if warnings st > 0
                              then WARNING_SIGN @ '' VERIFICATION PASSED WITH WARNINGS''
                              else CHECK_MARK @ '' VERIFICATION PASSED''),
                        Text (''----------------------------------------'' @ [NL])]) \<and>
         (exitStatus (main w cfg now) \<noteq> 0 \<longleftrightarrow> errors st > 0) \<and>
         exitStatus (main w cfg now) = (if errors st > 0 then 1 else 0) \<and>
         (\<exists>st'. reportInput w cfg' = Some (stateStats, st') \<and>
                errors st' = errors st \<and> warnings st' = warnings st \<and>
                details st' = details st)"
proof -
  note m = main_reportInput(1) [OF assms, of now]
  note p = main_reportInput(2) [OF assms]
  let ?fin = "generateReport cfg now stateStats st"
  have ec: "exitCode st = None"
    by (rule before_report(1) [OF p])
  have out: "json cfg \<Longrightarrow> stdout st = []"
    by (rule before_report(2) [OF p])
  note v = generateReport_verdict [where cfg = cfg and now = now and stateStats = stateStats,
        OF ec out]
  have c1: "errors ?fin = errors st" and c2: "warnings ?fin = warnings st"
    and c3: "details ?fin = details st"
    by simp_all
  have n: "counted st"
    by (rule counted_reportInput [OF assms])
  have n1: "errors st = length (filter (\<lambda>d. d_type d = Error) (details st))"
    and n2: "warnings st = length (filter (\<lambda>d. d_type d = Warning) (details st))"
    using n by (simp_all add: counted_def)
  have nonzero: "exitStatus ?fin \<noteq> 0 \<longleftrightarrow> errors st > 0"
    using v(2) by simp
  from reportInput_mode [OF assms, of cfg']
  obtain b where b: "reportInput w cfg' = Some (stateStats, b)" "results b = results st"
    by blast
  have other: "\<exists>st'. reportInput w cfg' = Some (stateStats, st') \<and>
                errors st' = errors st \<and> warnings st' = warnings st \<and>
                details st' = details st"
  proof (intro exI conjI)
    show "reportInput w cfg' = Some (stateStats, b)" by (rule b(1))
    show "errors b = errors st" "warnings b = warnings st" "details b = details st"
      using b(2) by (simp_all add: results_def)
  qed
  show ?thesis
    unfolding m
    by (rule conjI [OF refl conjI [OF c1 conjI [OF c2 conjI [OF c3 conjI [OF n1 conjI [OF n2
          conjI [OF v(1) conjI [OF nonzero conjI [OF v(2) other]]]]]]]]])
qed


theorem status_precedence_witness:
  "(\<exists>ss st. reportInput missingRegionWorld jsonMode = Some (ss, st) \<and>
      errors st = 1 \<and> warnings st = 1 \<and>
      (\<exists>r. stdout (main missingRegionWorld jsonMode ''2024-02-01T00:00:00.000Z'') = [Json r] \<and>
           r_status r = ''failed'' \<and> r_errors r = 1 \<and> r_warnings r = 1) \<and>
      exitStatus (main missingRegionWorld jsonMode ''2024-02-01T00:00:00.000Z'') = 1) \<and>
   (\<exists>ss st. reportInput missingRegionWorld textMode = Some (ss, st) \<and>
      errors st = 1 \<and> warnings st = 1 \<and>
      (\<exists>pre. stdout (main missingRegionWorld textMode ''2024-02-01T00:00:00.000Z'') =
         pre @ [Text (BALLOT_X @ '' VERIFICATION FAILED''),
                Text (''----------------------------------------'' @ [NL])]) \<and>
      exitStatus (main missingRegionWorld textMode ''2024-02-01T00:00:00.000Z'') = 1) \<and>
   (\<exists>ss st. reportInput smallWorld jsonMode = Some (ss, st) \<and>
      errors st = 0 \<and> warnings st = 1 \<and>
      (\<exists>r. stdout (main smallWorld jsonMode ''2024-02-01T00:00:00.000Z'') = [Json r] \<and>
           r_status r = ''passed_with_warnings'' \<and> r_errors r = 0 \<and> r_warnings r = 1) \<and>
      exitStatus (main smallWorld jsonMode ''2024-02-01T00:00:00.000Z'') = 0) \<and>
   (\<exists>ss st. reportInput exampleWorld jsonMode = Some (ss, st) \<and>
      errors st = 0 \<and> warnings st = 0 \<and>
      (\<exists>r. stdout (main exampleWorld jsonMode ''2024-02-01T00:00:00.000Z'') = [Json r] \<and>
           r_status r = ''passed'') \<and>
      exitStatus (main exampleWorld jsonMode ''2024-02-01T00:00:00.000Z'') = 0)"
proof -
  let ?now = "''2024-02-01T00:00:00.000Z''"
  have j: "json jsonMode" and t: "\<not> json textMode"
    by (simp_all add: jsonMode_def textMode_def)
  have "case reportInput missingRegionWorld jsonMode of
          None \<Rightarrow> False | Some (ss, st) \<Rightarrow> errors st = 1 \<and> warnings st = 1"
    by code_simp
  then obtain ss1 st1 where r1: "reportInput missingRegionWorld jsonMode = Some (ss1, st1)"
    and e1: "errors st1 = 1" and w1: "warnings st1 = 1"
    by (auto split: option.splits)
  note a = status_precedence [OF r1, of ?now textMode]
  have a1: "\<exists>r. stdout (main missingRegionWorld jsonMode ?now) = [Json r] \<and>
           r_status r = ''failed'' \<and> r_errors r = 1 \<and> r_warnings r = 1"
    using a [THEN conjunct2, THEN conjunct2, THEN conjunct2, THEN conjunct2, THEN conjunct2, THEN conjunct2, THEN conjunct1] e1 w1 j by simp
  have a2: "exitStatus (main missingRegionWorld jsonMode ?now) = 1"
    using a [THEN conjunct2, THEN conjunct2, THEN conjunct2, THEN conjunct2, THEN conjunct2, THEN conjunct2, THEN conjunct2, THEN conjunct2, THEN conjunct1] e1 by simp
  from a [THEN conjunct2, THEN conjunct2, THEN conjunct2, THEN conjunct2, THEN conjunct2, THEN conjunct2, THEN conjunct2, THEN conjunct2, THEN conjunct2] obtain st2 where r2: "reportInput missingRegionWorld textMode = Some (ss1, st2)"
    and e2: "errors st2 = 1" and w2: "warnings st2 = 1"
    using e1 w1 by auto
  note b = status_precedence [OF r2, of ?now jsonMode]
  have b1: "\<exists>pre. stdout (main missingRegionWorld textMode ?now) =
         pre @ [Text (BALLOT_X @ '' VERIFICATION FAILED''),
                Text (''----------------------------------------'' @ [NL])]"
    using b [THEN conjunct2, THEN conjunct2, THEN conjunct2, THEN conjunct2, THEN conjunct2, THEN conjunct2, THEN conjunct1] e2 t by (simp split del: if_split)
  have b2: "exitStatus (main missingRegionWorld textMode ?now) = 1"
    using b [THEN conjunct2, THEN conjunct2, THEN conjunct2, THEN conjunct2, THEN conjunct2, THEN conjunct2, THEN conjunct2, THEN conjunct2, THEN conjunct1] e2 by simp
  have "case reportInput smallWorld jsonMode of
          None \<Rightarrow> False | Some (ss, st) \<Rightarrow> errors st = 0 \<and> warnings st = 1"
    by code_simp
  then obtain ss3 st3 where r3: "reportInput smallWorld jsonMode = Some (ss3, st3)"
    and e3: "errors st3 = 0" and w3: "warnings st3 = 1"
    by (auto split: option.splits)
  note c = status_precedence [OF r3, of ?now textMode]
  have c1: "\<exists>r. stdout (main smallWorld jsonMode ?now) = [Json r] \<and>
           r_status r = ''passed_with_warnings'' \<and> r_errors r = 0 \<and> r_warnings r = 1"
    using c [THEN conjunct2, THEN conjunct2, THEN conjunct2, THEN conjunct2, THEN conjunct2, THEN conjunct2, THEN conjunct1] e3 w3 j by simp
  have c2: "exitStatus (main smallWorld jsonMode ?now) = 0"
    using c [THEN conjunct2, THEN conjunct2, THEN conjunct2, THEN conjunct2, THEN conjunct2, THEN conjunct2, THEN conjunct2, THEN conjunct2, THEN conjunct1] e3 by simp
  have v: "validInputs exampleWorld"
    using validInputs_example [of "Parsed (JArr [])"] by (simp add: exampleWorld_def)
  from v obtain ss0 st0 where rr: "reachesReport exampleWorld jsonMode"
    and m: "main exampleWorld jsonMode ?now
        = generateReport jsonMode ?now ss0 (validateSearchIndex exampleWorld jsonMode st0)"
    and z: "errors st0 = 0" "warnings st0 = 0"
    by (rule valid_run [where cfg = jsonMode and now = ?now])
  have s: "searchIndexFile exampleWorld = Parsed (JArr [])"
    by (simp add: exampleWorld_def)
  have em: "errors (main exampleWorld jsonMode ?now) = 0"
    and wm: "warnings (main exampleWorld jsonMode ?now) = 0"
    unfolding m using validateSearchIndex_array [OF s, of jsonMode st0] z by simp_all
  from rr obtain ss4 st4 where r4: "reportInput exampleWorld jsonMode = Some (ss4, st4)"
    by (auto simp: reachesReport_reportInput)
  note d = status_precedence [OF r4, of ?now textMode]
  have e4: "errors st4 = 0" and w4: "warnings st4 = 0"
    using d [THEN conjunct2, THEN conjunct1] d [THEN conjunct2, THEN conjunct2, THEN conjunct1]
      em wm by simp_all
  have d1: "\<exists>r. stdout (main exampleWorld jsonMode ?now) = [Json r] \<and> r_status r = ''passed''"
    using d [THEN conjunct2, THEN conjunct2, THEN conjunct2, THEN conjunct2, THEN conjunct2, THEN conjunct2, THEN conjunct1] e4 w4 j by auto
  have d2: "exitStatus (main exampleWorld jsonMode ?now) = 0"
    using d [THEN conjunct2, THEN conjunct2, THEN conjunct2, THEN conjunct2, THEN conjunct2, THEN conjunct2, THEN conjunct2, THEN conjunct2, THEN conjunct1] e4 by simp
  show ?thesis
  proof (intro conjI)
    show "\<exists>ss st. reportInput missingRegionWorld jsonMode = Some (ss, st) \<and>
      errors st = 1 \<and> warnings st = 1 \<and>
      (\<exists>r. stdout (main missingRegionWorld jsonMode ?now) = [Json r] \<and>
           r_status r = ''failed'' \<and> r_errors r = 1 \<and> r_warnings r = 1) \<and>
      exitStatus (main missingRegionWorld jsonMode ?now) = 1"
      by (intro exI [of _ ss1] exI [of _ st1] conjI r1 e1 w1 a1 a2)
    show "\<exists>ss st. reportInput missingRegionWorld textMode = Some (ss, st) \<and>
      errors st = 1 \<and> warnings st = 1 \<and>
      (\<exists>pre. stdout (main missingRegionWorld textMode ?now) =
         pre @ [Text (BALLOT_X @ '' VERIFICATION FAILED''),
                Text (''----------------------------------------'' @ [NL])]) \<and>
      exitStatus (main missingRegionWorld textMode ?now) = 1"
      by (intro exI [of _ ss1] exI [of _ st2] conjI r2 e2 w2 b1 b2)
    show "\<exists>ss st. reportInput smallWorld jsonMode = Some (ss, st) \<and>
      errors st = 0 \<and> warnings st = 1 \<and>
      (\<exists>r. stdout (main smallWorld jsonMode ?now) = [Json r] \<and>
           r_status r = ''passed_with_warnings'' \<and> r_errors r = 0 \<and> r_warnings r = 1) \<and>
      exitStatus (main smallWorld jsonMode ?now) = 0"
      by (intro exI [of _ ss3] exI [of _ st3] conjI r3 e3 w3 c1 c2)
    show "\<exists>ss st. reportInput exampleWorld jsonMode = Some (ss, st) \<and>
      errors st = 0 \<and> warnings st = 0 \<and>
      (\<exists>r. stdout (main exampleWorld jsonMode ?now) = [Json r] \<and> r_status r = ''passed'') \<and>
      exitStatus (main exampleWorld jsonMode ?now) = 0"
      by (intro exI [of _ ss4] exI [of _ st4] conjI r4 e4 w4 d1 d2)
  qed
qed

section \<open>The three ways a run ends\<close>

lemma main_report:
  assumes "reachesReport w cfg"
  shows "stderr (main w cfg now) = []"
    and "json cfg \<Longrightarrow> \<exists>r. stdout (main w cfg now) = [Json r]"
proof -
  from assms obtain index st1 stateStats st3 where
    m: "main w cfg now = generateReport cfg now stateStats (validateSearchIndex w cfg st3)"
    and p: "printsOnlyFindings cfg initial (validateSearchIndex w cfg st3)"
    by (rule main_reaches_report)
  show "stderr (main w cfg now) = []"
    using p by (simp add: m printsOnlyFindings_def initial_def)
  show "\<exists>r. stdout (main w cfg now) = [Json r]" if "json cfg"
    using before_report(2) [OF p that] that by (simp add: m generateReport_stdout_json)
qed

lemma main_uncaught:
  assumes "\<not> indexFatal w" and "\<not> reachesReport w cfg"
  shows "stderr (main w cfg now) = [''Verification script failed:'']"
    and "exitStatus (main w cfg now) = 1"
proof -
  obtain q st1 where v: "validateIndexFile w cfg (banner w cfg initial) = (q, st1)"
    by (cases "validateIndexFile w cfg (banner w cfg initial)")
  have q: "q \<noteq> Inr None"
    using validateIndexFile_fatal [of w cfg "banner w cfg initial"] assms(1) v by simp
  have p1: "printsOnlyFindings cfg initial st1"
    using pof_trans [OF pof_banner pof_validateIndexFile, of cfg initial w w] v by simp
  have both: "stderr (main w cfg now) = [''Verification script failed:''] \<and>
      exitStatus (main w cfg now) = 1"
  proof (cases q)
    case (Inl e)
    have m: "main w cfg now = st1\<lparr>stderr := stderr st1 @ [''Verification script failed:''],
        exitCode := Some 1\<rparr>"
      using v Inl by (simp add: main_def main_body_def)
    show ?thesis
      using p1 by (simp add: m printsOnlyFindings_def initial_def exitStatus_def)
  next
    case (Inr r)
    with q obtain index where r: "r = Some index" by (cases r) simp_all
    let ?st2 = "log cfg (NL # ''--- Validating State Files ---'') st1"
    obtain l st3 where l: "validateStates w cfg (indexStates index) [] ?st2 = (l, st3)"
      by (cases "validateStates w cfg (indexStates index) [] ?st2")
    have "printsOnlyFindings cfg initial ?st2"
      using p1 by (simp add: pof_intros)
    then have p3: "printsOnlyFindings cfg initial st3"
      using pof_validateStates [of cfg initial ?st2 w "indexStates index" "[]"] l by simp
    from assms(2) v Inr r l obtain e where e: "l = Inl e"
      by (cases l) (simp_all add: reachesReport_def)
    have m: "main w cfg now = st3\<lparr>stderr := stderr st3 @ [''Verification script failed:''],
        exitCode := Some 1\<rparr>"
      using v Inr r l e by (simp add: main_def main_body_def Let_def)
    show ?thesis
      using p3 by (simp add: m printsOnlyFindings_def initial_def exitStatus_def)
  qed
  then show "stderr (main w cfg now) = [''Verification script failed:'']"
    and "exitStatus (main w cfg now) = 1"
    by simp_all
qed

lemma main_exit_early:
  "\<not> reachesReport w cfg \<Longrightarrow> exitStatus (main w cfg now) = 1"
  using main_fatal(1) [of w cfg now] main_uncaught(2) [of w cfg now] by blast

lemma abort_observed:
  "indexFatal w \<longleftrightarrow>
     (if json cfg then stdout (main w cfg now) = [] \<and> stderr (main w cfg now) = []
      else Text CANNOT_CONTINUE \<in> set (stdout (main w cfg now)))"
proof (cases "indexFatal w")
  case True
  note t = main_fatal [OF True]
  from t(2) [of cfg now] t(4) [of cfg now] True show ?thesis
    by (auto split: if_splits)
next
  case False
  note n = main_not_fatal [OF False, of cfg now]
  show ?thesis
  proof (cases "reachesReport w cfg")
    case True
    with False n main_report(2) [OF True, of now] show ?thesis by auto
  next
    case r: False
    with False n main_uncaught(1) [OF False r, of now] show ?thesis by auto
  qed
qed





section \<open>The search index artifact in a run\<close>

lemma validateSearchIndex_fields:
  "errors (validateSearchIndex w cfg st) =
     errors st + (case searchIndexFile w of
                    Missing \<Rightarrow> 0 | ParseError m \<Rightarrow> 1
                  | Parsed v \<Rightarrow> if isArray v then 0 else 1)"
  "warnings (validateSearchIndex w cfg st) =
     warnings st + (case searchIndexFile w of
                      Missing \<Rightarrow> 1 | ParseError m \<Rightarrow> 0 | Parsed v \<Rightarrow> 0)"
  "details (validateSearchIndex w cfg st) =
     details st @
       (case searchIndexFile w of
          Missing \<Rightarrow> [\<lparr>d_type = Warning, d_check = ''search-index.json exists'',
                       d_details = JStr ''Run build-search-index.js to generate''\<rparr>]
        | ParseError m \<Rightarrow> [\<lparr>d_type = Error, d_check = ''search-index.json is valid JSON'',
                            d_details = JStr m\<rparr>]
        | Parsed v \<Rightarrow> if isArray v then []
                      else [\<lparr>d_type = Error, d_check = ''search-index.json is an array'',
                             d_details = JStr []\<rparr>])"
  by (simp_all add: validateSearchIndex_def Let_def split: file_result.splits)




section \<open>The issues about the statute URL\<close>

text \<open>
  Claim C6, as the code has it. For a region document with a truthy
  \<^verbatim>\<open>hasPublicWorksRequirement\<close>, a requirement object whose \<^verbatim>\<open>statuteUrl\<close> is a string
  that does not begin with the four characters \<^verbatim>\<open>http\<close>, and \<^verbatim>\<open>state\<close> and
  \<^verbatim>\<open>agencyType\<close> values that have a string conversion: the checks return an issue list.
  When the string is not empty, the list contains \<^verbatim>\<open>Invalid statute URL: \<close> followed by
  the string and does not contain the missing-statuteUrl issue. When the string is empty,
  the list contains the missing-statuteUrl issue and no invalid-URL issue. Either way the
  list has this one issue about the statute URL and no other.
\<close>

theorem statute_url_issue:
  assumes "truthy (getProp data ''hasPublicWorksRequirement'')"
    and "getProp data ''requirement'' = Some (JObj rkvs)"
    and "map_of rkvs ''statuteUrl'' = Some (JStr url)"
    and "\<not> startsWith url ''http''"
    and "toStrU (getProp data ''state'') \<noteq> None"
    and "toStrU (getProp data ''agencyType'') \<noteq> None"
  shows "\<exists>iss. contentIssues stateCode data = Inr iss \<and>
           (if url = []
            then ''Missing requirement.statuteUrl'' \<in> set iss \<and>
                 (\<forall>i \<in> set iss. \<not> startsWith i ''Invalid statute URL: '') \<and>
                 filter aboutStatuteUrl iss = [''Missing requirement.statuteUrl'']
            else ''Invalid statute URL: '' @ url \<in> set iss \<and>
                 ''Missing requirement.statuteUrl'' \<notin> set iss \<and>
                 filter aboutStatuteUrl iss = [''Invalid statute URL: '' @ url])"
proof -
  define u where "u = (if url = [] then ''Missing requirement.statuteUrl''
                       else ''Invalid statute URL: '' @ url)"
  define m where "m =
      (if \<not> truthy (getProp (JObj rkvs) ''requirementType'')
       then [''Missing requirement.requirementType''] else [])
    @ (if \<not> truthy (getProp (JObj rkvs) ''ratioDescription'')
       then [''Missing requirement.ratioDescription''] else [])
    @ (if \<not> truthy (getProp (JObj rkvs) ''statute'')
       then [''Missing requirement.statute''] else [])"
  have cu: "checkStatuteUrl (JObj rkvs) = Inr [u]"
    using checkStatuteUrl_string [of "JObj rkvs" url] assms(3,4) by (simp add: u_def)
  have t: "truthy (Some (JObj rkvs))" by simp
  have r: "checkRequirement data = Inr (m @ [u])"
    unfolding m_def using checkRequirement_present [OF assms(1,2) t cu] by simp
  have nn: "data \<noteq> JNull" using assms(2) by auto
  obtain i1 i3 where
    "checkState stateCode data = Inr i1" "length i1 \<le> 1"
    "checkAgencyType data = Inr i3" "length i3 \<le> 1"
    and c: "contentIssues stateCode data =
       Inr (i1 @ checkStateName data @ i3 @ checkHasRequirement data @ (m @ [u])
            @ checkNoRequirement data @ checkLastVerified data)"
    by (rule contentIssues_returns [OF nn assms(5,6) r, of stateCode])
  define iss where "iss = i1 @ checkStateName data @ i3 @ checkHasRequirement data @ (m @ [u])
            @ checkNoRequirement data @ checkLastVerified data"
  have c': "contentIssues stateCode data = Inr iss"
    using c by (simp only: iss_def)
  obtain i5 where "checkRequirement data = Inr i5"
    "filter aboutRequirement iss = filter aboutRequirement i5"
    by (rule contentIssues_about [OF c'])
  with r have fa: "filter aboutRequirement iss = filter aboutRequirement (m @ [u])"
    by simp
  have mn: "filter aboutStatuteUrl m = []"
    by (simp add: m_def aboutStatuteUrl_def startsWith_def)
  have au: "aboutStatuteUrl u"
    by (simp add: u_def aboutStatuteUrl_def startsWith_def)
  have "filter aboutStatuteUrl iss = filter aboutStatuteUrl (filter aboutRequirement iss)"
    by (rule filter_about_url)
  also have "\<dots> = filter aboutStatuteUrl (filter aboutRequirement (m @ [u]))"
    by (simp only: fa)
  also have "\<dots> = filter aboutStatuteUrl (m @ [u])"
    by (rule filter_about_url [symmetric])
  finally have f: "filter aboutStatuteUrl iss = [u]"
    using mn au by simp
  have mem: "u \<in> set iss"
    by (simp add: iss_def)
  have only: "i = u" if "i \<in> set iss" "aboutStatuteUrl i" for i
  proof -
    from that have "i \<in> set (filter aboutStatuteUrl iss)" by simp
    then show ?thesis unfolding f by simp
  qed
  have result: "if url = []
            then ''Missing requirement.statuteUrl'' \<in> set iss \<and>
                 (\<forall>i \<in> set iss. \<not> startsWith i ''Invalid statute URL: '') \<and>
                 filter aboutStatuteUrl iss = [''Missing requirement.statuteUrl'']
            else ''Invalid statute URL: '' @ url \<in> set iss \<and>
                 ''Missing requirement.statuteUrl'' \<notin> set iss \<and>
                 filter aboutStatuteUrl iss = [''Invalid statute URL: '' @ url]"
  proof (cases "url = []")
    case True
    then have u: "u = ''Missing requirement.statuteUrl''" by (simp add: u_def)
    have no: "\<forall>i \<in> set iss. \<not> startsWith i ''Invalid statute URL: ''"
    proof
      fix i assume i: "i \<in> set iss"
      show "\<not> startsWith i ''Invalid statute URL: ''"
      proof
        assume s: "startsWith i ''Invalid statute URL: ''"
        then have "aboutStatuteUrl i" by (simp add: aboutStatuteUrl_def)
        from only [OF i this] s u show False by (simp add: startsWith_def)
      qed
    qed
    have m1: "''Missing requirement.statuteUrl'' \<in> set iss"
      using mem by (simp only: u)
    have f1: "filter aboutStatuteUrl iss = [''Missing requirement.statuteUrl'']"
      using f by (simp only: u)
    show ?thesis
      unfolding if_P [OF True] by (rule conjI [OF m1 conjI [OF no f1]])
  next
    case False
    then have u: "u = ''Invalid statute URL: '' @ url" by (simp add: u_def)
    have a2: "aboutStatuteUrl ''Missing requirement.statuteUrl''"
      by (simp add: aboutStatuteUrl_def)
    have ne: "''Missing requirement.statuteUrl'' \<noteq> u"
      by (simp add: u)
    have m2: "''Missing requirement.statuteUrl'' \<notin> set iss"
      using only [OF _ a2] ne by blast
    have m1: "''Invalid statute URL: '' @ url \<in> set iss"
      using mem by (simp only: u)
    have f1: "filter aboutStatuteUrl iss = [''Invalid statute URL: '' @ url]"
      using f by (simp only: u)
    show ?thesis
      unfolding if_not_P [OF False] by (rule conjI [OF m1 conjI [OF m2 f1]])
  qed
  show ?thesis
  proof (intro exI conjI)
    show "contentIssues stateCode data = Inr iss" by (rule c')
    show "if url = []
            then ''Missing requirement.statuteUrl'' \<in> set iss \<and>
                 (\<forall>i \<in> set iss. \<not> startsWith i ''Invalid statute URL: '') \<and>
                 filter aboutStatuteUrl iss = [''Missing requirement.statuteUrl'']
            else ''Invalid statute URL: '' @ url \<in> set iss \<and>
                 ''Missing requirement.statuteUrl'' \<notin> set iss \<and>
                 filter aboutStatuteUrl iss = [''Invalid statute URL: '' @ url]"
      by (rule result)
  qed
qed

lemma urlDoc_hyps:
  "truthy (getProp (urlDoc (JStr url)) ''hasPublicWorksRequirement'')"
  "getProp (urlDoc (JStr url)) ''requirement'' =
     Some (JObj [(''requirementType'', JStr ''ratio''), (''ratioDescription'', JStr ''1:5''),
                 (''statute'', JStr ''Labor Code 1777.5''), (''statuteUrl'', JStr url)])"
  "map_of [(''requirementType'', JStr ''ratio''), (''ratioDescription'', JStr ''1:5''),
           (''statute'', JStr ''Labor Code 1777.5''), (''statuteUrl'', JStr url)] ''statuteUrl''
     = Some (JStr url)"
  "toStrU (getProp (urlDoc (JStr url)) ''state'') \<noteq> None"
  "toStrU (getProp (urlDoc (JStr url)) ''agencyType'') \<noteq> None"
  by (simp_all add: urlDoc_def)

theorem statute_url_issue_witness:
  "truthy (getProp (urlDoc (JStr ''ftp://example.org/law'')) ''hasPublicWorksRequirement'') \<and>
   \<not> startsWith ''ftp://example.org/law'' ''http'' \<and>
   (\<exists>iss. contentIssues ''CA'' (urlDoc (JStr ''ftp://example.org/law'')) = Inr iss \<and>
          ''Invalid statute URL: ftp://example.org/law'' \<in> set iss \<and>
          ''Missing requirement.statuteUrl'' \<notin> set iss \<and>
          filter aboutStatuteUrl iss = [''Invalid statute URL: ftp://example.org/law'']) \<and>
   truthy (getProp (urlDoc (JStr [])) ''hasPublicWorksRequirement'') \<and>
   \<not> startsWith [] ''http'' \<and>
   (\<exists>iss. contentIssues ''CA'' (urlDoc (JStr [])) = Inr iss \<and>
          ''Missing requirement.statuteUrl'' \<in> set iss \<and>
          filter aboutStatuteUrl iss = [''Missing requirement.statuteUrl''])"
proof -
  let ?url = "''ftp://example.org/law''"
  have h4: "\<not> startsWith ?url ''http''" by (simp add: startsWith_def)
  have h4': "\<not> startsWith [] ''http''" by (simp add: startsWith_def)
  note t = statute_url_issue [OF urlDoc_hyps(1,2,3) h4 urlDoc_hyps(4,5), of "''CA''"]
  note t' = statute_url_issue [OF urlDoc_hyps(1,2,3) h4' urlDoc_hyps(4,5), of "''CA''"]
  have ne: "?url \<noteq> []" by simp
  have e: "''Invalid statute URL: '' @ ?url = ''Invalid statute URL: ftp://example.org/law''"
    by simp
  have a: "\<exists>iss. contentIssues ''CA'' (urlDoc (JStr ?url)) = Inr iss \<and>
          ''Invalid statute URL: ftp://example.org/law'' \<in> set iss \<and>
          ''Missing requirement.statuteUrl'' \<notin> set iss \<and>
          filter aboutStatuteUrl iss = [''Invalid statute URL: ftp://example.org/law'']"
    using t [unfolded if_not_P [OF ne] e] .
  have b: "\<exists>iss. contentIssues ''CA'' (urlDoc (JStr [])) = Inr iss \<and>
          ''Missing requirement.statuteUrl'' \<in> set iss \<and>
          filter aboutStatuteUrl iss = [''Missing requirement.statuteUrl'']"
    using t' [unfolded if_P [OF refl]] by blast
  show ?thesis
    by (intro conjI urlDoc_hyps(1) h4 a h4' b)
qed

text \<open>
  Claim C6 as written covers every value that does not begin with an HTTP(S) scheme. The
  empty string is such a value: line 152 reports it as missing, and the guard
  \<^verbatim>\<open>req.statuteUrl &&\<close> of line 153 skips the URL test, so the only issue is the
  missing-statuteUrl issue.
\<close>

theorem statute_url_empty_counterexample:
  "truthy (getProp (urlDoc (JStr [])) ''hasPublicWorksRequirement'') \<and>
   truthy (getProp (urlDoc (JStr [])) ''requirement'') \<and>
   \<not> startsWith [] ''http'' \<and>
   contentIssues ''CA'' (urlDoc (JStr [])) = Inr [''Missing requirement.statuteUrl'']"
  by code_simp

section \<open>Documents on which a check throws\<close>

text \<open>
  Claim C5 does not hold of the code on two inputs. An index whose \<^verbatim>\<open>states\<close> lists one
  region, so that fifty codes are missing, and whose \<^verbatim>\<open>lastUpdated\<close> is the object
  \<^verbatim>\<open>{"toString": 1}\<close>: \<^verbatim>\<open>new Date\<close> throws at line 85, before the coverage check of
  line 102, and the run ends in the top-level handler with no warning recorded. An index
  that lists the regions CA and TX, the file of CA holding \<^verbatim>\<open>null\<close> and the file of TX
  missing: reading \<^verbatim>\<open>data.state\<close> throws at line 130, the loop ends, and the region TX
  is never validated (validating it would record an error; the run ends with none).
\<close>

theorem coverage_lost_on_throw:
  "indexFile badDateWorld = Parsed badDateIndex \<and>
   getProp badDateIndex ''states'' = Some (JObj [(''CA'', JObj [])]) \<and>
   length (missingStates badDateIndex) = 50 \<and>
   warnings (main badDateWorld jsonMode ''2024-02-01T00:00:00.000Z'') = 0 \<and>
   details (main badDateWorld jsonMode ''2024-02-01T00:00:00.000Z'') = [] \<and>
   stdout (main badDateWorld jsonMode ''2024-02-01T00:00:00.000Z'') = [] \<and>
   stderr (main badDateWorld jsonMode ''2024-02-01T00:00:00.000Z'')
     = [''Verification script failed:''] \<and>
   exitStatus (main badDateWorld jsonMode ''2024-02-01T00:00:00.000Z'') = 1 \<and>
   indexFile twoRegionWorld = Parsed twoRegionIndex \<and>
   indexStates twoRegionIndex = [''CA'', ''TX''] \<and>
   stateFile twoRegionWorld ''CA'' = Parsed JNull \<and>
   stateFile twoRegionWorld ''TX'' = Missing \<and>
   errors (snd (validateStateFile twoRegionWorld jsonMode ''TX'' initial)) = 1 \<and>
   errors (main twoRegionWorld jsonMode ''2024-02-01T00:00:00.000Z'') = 0 \<and>
   stdout (main twoRegionWorld jsonMode ''2024-02-01T00:00:00.000Z'') = [] \<and>
   stderr (main twoRegionWorld jsonMode ''2024-02-01T00:00:00.000Z'')
     = [''Verification script failed:''] \<and>
   exitStatus (main twoRegionWorld jsonMode ''2024-02-01T00:00:00.000Z'') = 1"
  by code_simp

text \<open>
  Claim C7 does not hold of the code for a region file that holds \<^verbatim>\<open>null\<close>. The
  document parses, reading \<^verbatim>\<open>data.state\<close> throws at line 130, and the region validator
  records neither a pass nor a warning: the state is as it was. In the small data
  directory the run ends in the top-level handler with the four passes of the index
  validator and no entry for the region.
\<close>

theorem parsed_null_document_throws:
  "stateFile nullRegionWorld ''CA'' = Parsed JNull \<and>
   contentIssues ''CA'' JNull = Inl TypeError \<and>
   validateStateFile nullRegionWorld cfg ''CA'' st = (Inl TypeError, st) \<and>
   passed (main nullRegionWorld jsonMode ''2024-02-01T00:00:00.000Z'') = 4 \<and>
   filter (\<lambda>d. d_check d = ''CA'')
     (details (main nullRegionWorld jsonMode ''2024-02-01T00:00:00.000Z'')) = [] \<and>
   stdout (main nullRegionWorld jsonMode ''2024-02-01T00:00:00.000Z'') = [] \<and>
   stderr (main nullRegionWorld jsonMode ''2024-02-01T00:00:00.000Z'')
     = [''Verification script failed:''] \<and>
   exitStatus (main nullRegionWorld jsonMode ''2024-02-01T00:00:00.000Z'') = 1"
proof -
  have a: "stateFile nullRegionWorld ''CA'' = Parsed JNull"
    by (simp add: nullRegionWorld_def)
  have b: "contentIssues ''CA'' JNull = Inl TypeError"
    by (simp add: contentIssues_def)
  have c: "validateStateFile nullRegionWorld cfg ''CA'' st = (Inl TypeError, st)"
    by (simp add: validateStateFile_def a b)
  have d: "passed (main nullRegionWorld jsonMode ''2024-02-01T00:00:00.000Z'') = 4 \<and>
   filter (\<lambda>d. d_check d = ''CA'')
     (details (main nullRegionWorld jsonMode ''2024-02-01T00:00:00.000Z'')) = [] \<and>
   stdout (main nullRegionWorld jsonMode ''2024-02-01T00:00:00.000Z'') = [] \<and>
   stderr (main nullRegionWorld jsonMode ''2024-02-01T00:00:00.000Z'')
     = [''Verification script failed:''] \<and>
   exitStatus (main nullRegionWorld jsonMode ''2024-02-01T00:00:00.000Z'') = 1"
    by code_simp
  show ?thesis
    by (rule conjI [OF a conjI [OF b conjI [OF c d]]])
qed

text \<open>
  Claim C9 does not hold of the code for a region document whose
  \<^verbatim>\<open>hasPublicWorksRequirement\<close> is the string \<^verbatim>\<open>"true"\<close> and whose requirement object
  has the number 42 as its \<^verbatim>\<open>statuteUrl\<close>. The check of line 142 gives its issue, but
  \<^verbatim>\<open>req.statuteUrl.startsWith\<close> throws at line 153 and the issue list is lost: the
  region validator records nothing, and the run ends in the top-level handler.
\<close>

theorem non_string_statute_url_throws:
  "truthy (getProp numberUrlDoc ''hasPublicWorksRequirement'') \<and>
   typeof (getProp numberUrlDoc ''hasPublicWorksRequirement'') = ''string'' \<and>
   truthy (getProp numberUrlDoc ''requirement'') \<and>
   checkHasRequirement numberUrlDoc = [''Missing or invalid hasPublicWorksRequirement''] \<and>
   checkRequirement numberUrlDoc = Inl TypeError \<and>
   contentIssues ''CA'' numberUrlDoc = Inl TypeError \<and>
   stateFile numberUrlWorld ''CA'' = Parsed numberUrlDoc \<and>
   validateStateFile numberUrlWorld cfg ''CA'' st = (Inl TypeError, st) \<and>
   filter (\<lambda>d. d_check d = ''CA'')
     (details (main numberUrlWorld jsonMode ''2024-02-01T00:00:00.000Z'')) = [] \<and>
   stdout (main numberUrlWorld jsonMode ''2024-02-01T00:00:00.000Z'') = [] \<and>
   stderr (main numberUrlWorld jsonMode ''2024-02-01T00:00:00.000Z'')
     = [''Verification script failed:''] \<and>
   exitStatus (main numberUrlWorld jsonMode ''2024-02-01T00:00:00.000Z'') = 1"
proof -
  have a: "truthy (getProp numberUrlDoc ''hasPublicWorksRequirement'') \<and>
   typeof (getProp numberUrlDoc ''hasPublicWorksRequirement'') = ''string'' \<and>
   truthy (getProp numberUrlDoc ''requirement'') \<and>
   checkHasRequirement numberUrlDoc = [''Missing or invalid hasPublicWorksRequirement''] \<and>
   checkRequirement numberUrlDoc = Inl TypeError"
    by code_simp
  have b: "contentIssues ''CA'' numberUrlDoc = Inl TypeError"
    by code_simp
  have f: "stateFile numberUrlWorld ''CA'' = Parsed numberUrlDoc"
    by (simp add: numberUrlWorld_def)
  have c: "validateStateFile numberUrlWorld cfg ''CA'' st = (Inl TypeError, st)"
    by (simp add: validateStateFile_def f b)
  have d: "filter (\<lambda>d. d_check d = ''CA'')
     (details (main numberUrlWorld jsonMode ''2024-02-01T00:00:00.000Z'')) = [] \<and>
   stdout (main numberUrlWorld jsonMode ''2024-02-01T00:00:00.000Z'') = [] \<and>
   stderr (main numberUrlWorld jsonMode ''2024-02-01T00:00:00.000Z'')
     = [''Verification script failed:''] \<and>
   exitStatus (main numberUrlWorld jsonMode ''2024-02-01T00:00:00.000Z'') = 1"
    by code_simp
  show ?thesis
    using a b f c d by (intro conjI) simp_all
qed

end
